theory Spec2Isabelle
  imports Main "HOL-Library.Word" "HOL-Library.Sublist"
begin

section \<open>Buffers and 32-bit big-endian integers\<close>

text \<open>
  A Node \<open>Buffer\<close> is a list of bytes. Errors raised by the code are values of
  \<open>js_error\<close>; the \<open>trailing data\<close> error carries its \<open>trailingData\<close> field.
\<close>

type_synonym byte = "8 word"
type_synonym buffer = "byte list"

datatype js_error =
    Error string
  | TypeError string
  | ReferenceError string
  | RangeError string
  | TrailingData buffer

text \<open>
  \<open>buf.readInt32BE(off)\<close>: four bytes, most significant first, read as two's complement.
  Every call site checks the length of the buffer before reading.
\<close>

definition readInt32BE :: "buffer \<Rightarrow> nat \<Rightarrow> int" where
  "readInt32BE b off =
     (let u = ((int (unat (b ! off)) * 256 + int (unat (b ! (off + 1)))) * 256
                 + int (unat (b ! (off + 2)))) * 256 + int (unat (b ! (off + 3)))
      in if u \<ge> 2 ^ 31 then u - 2 ^ 32 else u)"

text \<open>
  \<open>buf.writeInt32BE(n)\<close> on a fresh four-byte buffer: Node raises a range error when
  \<open>n\<close> is not a signed 32-bit value.
\<close>

definition int32_bytes :: "int \<Rightarrow> buffer" where
  "int32_bytes n =
     (let u = n mod 2 ^ 32
      in [of_int (u div 2 ^ 24), of_int (u div 2 ^ 16), of_int (u div 2 ^ 8), of_int u])"

definition writeInt32BE :: "int \<Rightarrow> js_error + buffer" where
  "writeInt32BE n =
     (if - (2 ^ 31) \<le> n \<and> n < 2 ^ 31 then Inr (int32_bytes n)
      else Inl (RangeError ''ERR_OUT_OF_RANGE''))"

definition intBuffer :: "int \<Rightarrow> js_error + buffer" where
  "intBuffer n = writeInt32BE n"

text \<open>
  \<open>buf.slice(start, end)\<close> and \<open>buf.slice(start)\<close> with JavaScript's index rules: a
  negative index counts from the end, every index is clamped to the buffer, and an end
  before the start gives the empty buffer.
\<close>

definition clamp_index :: "nat \<Rightarrow> int \<Rightarrow> nat" where
  "clamp_index len i =
     (if i < 0 then nat (max 0 (int len + i)) else min len (nat i))"

definition slice :: "buffer \<Rightarrow> int \<Rightarrow> int \<Rightarrow> buffer" where
  "slice b start end =
     (let s = clamp_index (length b) start; e = clamp_index (length b) end
      in take (e - s) (drop s b))"

definition slice_from :: "buffer \<Rightarrow> int \<Rightarrow> buffer" where
  "slice_from b start = drop (clamp_index (length b) start) b"

section \<open>Type codecs supplied by the schema library\<close>

text \<open>
  The codec consumes \<open>utils.handshakeRequestType\<close>, \<open>utils.handshakeResponseType\<close> and
  \<open>utils.mapOfBytesType\<close> through two methods only. They are parameters of the model:
  \<open>toBuffer\<close> serialises a value or raises; \<open>decode\<close> is \<open>type.decode(buf, 0)\<close>, which
  raises, reports a negative offset (\<open>Truncated\<close>), or returns the value with the offset
  of the first byte after it.
\<close>

datatype 'v decoded = Truncated | Decoded 'v nat

record 'v avro_type =
  toBuffer :: "'v \<Rightarrow> js_error + buffer"
  decode :: "buffer \<Rightarrow> js_error + 'v decoded"

type_synonym header_map = "(string \<times> buffer) list"

section \<open>NettyPacket\<close>

record npacket =
  body :: buffer
  headers :: header_map

definition toPayload :: "header_map avro_type \<Rightarrow> npacket \<Rightarrow> js_error + buffer" where
  "toPayload mapOfBytesType pkt =
     (case toBuffer mapOfBytesType (headers pkt) of
        Inl err \<Rightarrow> Inl err
      | Inr hb \<Rightarrow> Inr (hb @ body pkt))"

definition forPayload :: "header_map avro_type \<Rightarrow> buffer \<Rightarrow> js_error + npacket" where
  "forPayload mapOfBytesType buf =
     (case decode mapOfBytesType buf of
        Inl err \<Rightarrow> Inl err
      | Inr Truncated \<Rightarrow> Inl (Error ''truncated request headers'')
      | Inr (Decoded v off) \<Rightarrow> Inr \<lparr>body = slice_from buf (int off), headers = v\<rparr>)"

text \<open>
  \<open>forSystemError(err, headers)\<close>: the body is the bytes 1, 0 followed by the encoded
  error; absent headers become the empty map in the constructor.
\<close>

definition forSystemError :: "buffer \<Rightarrow> header_map option \<Rightarrow> npacket" where
  "forSystemError errBuf hdrs =
     \<lparr>body = [1, 0] @ errBuf, headers = (case hdrs of None \<Rightarrow> [] | Some h \<Rightarrow> h)\<rparr>"

section \<open>NettyDecoder\<close>

text \<open>The object pushed by the decoder and written to the encoder.\<close>

record 'h frame_obj =
  handshake :: "'h option"
  obj_id :: int
  packet :: npacket

record dstate =
  d_expectHandshake :: bool
  d_id :: "int option"
  d_frameCount :: int
  d_buf :: buffer
  d_bufs :: "buffer list"

definition NettyDecoder_new :: dstate where
  "NettyDecoder_new =
     \<lparr>d_expectHandshake = True, d_id = None, d_frameCount = 0, d_buf = [], d_bufs = []\<rparr>"

text \<open>The inner function \<open>decode(withHandshake)\<close> of \<open>_decode\<close>.\<close>

definition decode_with ::
  "'h avro_type \<Rightarrow> header_map avro_type \<Rightarrow> buffer \<Rightarrow> bool \<Rightarrow> js_error + ('h option \<times> npacket)"
where
  "decode_with handshakeType mapOfBytesType buf withHandshake =
     (if withHandshake then
        (case decode handshakeType buf of
           Inl err \<Rightarrow> Inl err
         | Inr Truncated \<Rightarrow> Inl (Error ''truncated packet handshake'')
         | Inr (Decoded v off) \<Rightarrow>
             (case forPayload mapOfBytesType (slice_from buf (int off)) of
                Inl err \<Rightarrow> Inl err
              | Inr pkt \<Rightarrow> Inr (Some v, pkt)))
      else
        (case forPayload mapOfBytesType buf of
           Inl err \<Rightarrow> Inl err
         | Inr pkt \<Rightarrow> Inr (None, pkt)))"

text \<open>
  \<open>_decode(id, buf)\<close>: the first attempt and, when it raises, the second one are both
  made with \<open>this._expectHandshake\<close>, as the source has it.
\<close>

definition NettyDecoder_decode ::
  "'h avro_type \<Rightarrow> header_map avro_type \<Rightarrow> dstate \<Rightarrow> int \<Rightarrow> buffer
    \<Rightarrow> js_error + (dstate \<times> 'h frame_obj)"
where
  "NettyDecoder_decode handshakeType mapOfBytesType s ident buf =
     (case (case decode_with handshakeType mapOfBytesType buf (d_expectHandshake s) of
              Inl err \<Rightarrow> decode_with handshakeType mapOfBytesType buf (d_expectHandshake s)
            | Inr r \<Rightarrow> Inr r) of
        Inl err \<Rightarrow> Inl err
      | Inr (hs, pkt) \<Rightarrow>
          Inr (if hs = None \<and> d_expectHandshake s then s\<lparr>d_expectHandshake := False\<rparr> else s,
               \<lparr>handshake = hs, obj_id = ident, packet = pkt\<rparr>))"

text \<open>
  The inner loop of \<open>_transform\<close>, on the frame count, the frames collected so far and the
  unread bytes. It need not end: with a negative frame count and a frame length of -4 no
  byte is consumed and the count never reaches zero, so not returning is \<open>None\<close>.
\<close>

partial_function (option) readFrames ::
  "int \<Rightarrow> buffer list \<Rightarrow> buffer \<Rightarrow> (int \<times> buffer list \<times> buffer) option"
where
  "readFrames frameCount bufs buf =
     (if frameCount \<noteq> 0 \<and> length buf \<ge> 4 \<and> int (length buf) \<ge> readInt32BE buf 0 + 4
      then readFrames (frameCount - 1)
             (bufs @ [slice buf 4 (readInt32BE buf 0 + 4)])
             (slice_from buf (readInt32BE buf 0 + 4))
      else Some (frameCount, bufs, buf))"

text \<open>
  The outer loop of \<open>_transform\<close>. The result is the decoder afterwards, the objects
  pushed, and the error emitted if decoding raised (then the callback is never called).
\<close>

partial_function (option) transform_loop ::
  "'h avro_type \<Rightarrow> header_map avro_type \<Rightarrow> dstate \<Rightarrow> buffer
    \<Rightarrow> (dstate \<times> 'h frame_obj list \<times> js_error option) option"
where
  "transform_loop handshakeType mapOfBytesType s buf =
     (if d_id s = None \<and> length buf < 8 then Some (s\<lparr>d_buf := buf\<rparr>, [], None)
      else
        (let s1 = (if d_id s = None
                   then s\<lparr>d_id := Some (readInt32BE buf 0), d_frameCount := readInt32BE buf 4\<rparr>
                   else s);
             buf1 = (if d_id s = None then slice_from buf 8 else buf)
         in Option.bind (readFrames (d_frameCount s1) (d_bufs s1) buf1) (\<lambda>(fc, bs, buf2).
              let s2 = s1\<lparr>d_frameCount := fc, d_bufs := bs\<rparr>
              in if fc \<noteq> 0 then Some (s2\<lparr>d_buf := buf2\<rparr>, [], None)
                 else (case NettyDecoder_decode handshakeType mapOfBytesType s2 (the (d_id s2)) (concat bs) of
                         Inl err \<Rightarrow> Some (s2, [], Some err)
                       | Inr (s3, obj) \<Rightarrow>
                           Option.bind
                             (transform_loop handshakeType mapOfBytesType
                                (s3\<lparr>d_bufs := [], d_id := None\<rparr>) buf2)
                             (\<lambda>(s4, objs, err). Some (s4, obj # objs, err))))))"

declare readFrames.simps [code]
declare transform_loop.simps [code]

definition NettyDecoder_transform ::
  "'h avro_type \<Rightarrow> header_map avro_type \<Rightarrow> dstate \<Rightarrow> buffer
    \<Rightarrow> (dstate \<times> 'h frame_obj list \<times> js_error option) option"
where
  "NettyDecoder_transform handshakeType mapOfBytesType s chunk =
     transform_loop handshakeType mapOfBytesType s (d_buf s @ chunk)"

text \<open>
  Writing a sequence of chunks: once an error has been emitted the transform callback is
  never called, so no later chunk is processed.
\<close>

fun feed ::
  "'h avro_type \<Rightarrow> header_map avro_type \<Rightarrow> dstate \<Rightarrow> buffer list
    \<Rightarrow> (dstate \<times> 'h frame_obj list \<times> js_error option) option"
where
  "feed ht mt s [] = Some (s, [], None)"
| "feed ht mt s (chunk # chunks) =
     (case NettyDecoder_transform ht mt s chunk of
        None \<Rightarrow> None
      | Some (s', objs, Some err) \<Rightarrow> Some (s', objs, Some err)
      | Some (s', objs, None) \<Rightarrow>
          (case feed ht mt s' chunks of
             None \<Rightarrow> None
           | Some (s'', objs', err) \<Rightarrow> Some (s'', objs @ objs', err)))"

text \<open>\<open>_flush()\<close>: the error emitted at the end of the input, if any.\<close>

definition NettyDecoder_flush :: "dstate \<Rightarrow> js_error option" where
  "NettyDecoder_flush s =
     (if d_buf s \<noteq> [] \<or> d_bufs s \<noteq> []
      then Some (TrailingData (concat (d_buf s # d_bufs s)))
      else None)"

section \<open>NettyEncoder\<close>

definition NettyEncoder_encode ::
  "'h avro_type \<Rightarrow> header_map avro_type \<Rightarrow> 'h frame_obj \<Rightarrow> js_error + buffer list"
where
  "NettyEncoder_encode handshakeType mapOfBytesType obj =
     (case toPayload mapOfBytesType (packet obj) of
        Inl err \<Rightarrow> Inl err
      | Inr payload \<Rightarrow>
          (case handshake obj of
             None \<Rightarrow> Inr [payload]
           | Some h \<Rightarrow>
               (case toBuffer handshakeType h of
                  Inl err \<Rightarrow> Inl err
                | Inr hb \<Rightarrow> Inr [hb, payload])))"

text \<open>
  The loop of \<open>_transform\<close> that pushes the frames: the chunks pushed, and the error raised
  by \<open>intBuffer\<close> if a length does not fit.
\<close>

fun push_frames :: "buffer list \<Rightarrow> buffer list \<times> js_error option" where
  "push_frames [] = ([], None)"
| "push_frames (buf # bufs) =
     (case intBuffer (int (length buf)) of
        Inl err \<Rightarrow> ([], Some err)
      | Inr lb \<Rightarrow> (case push_frames bufs of (chunks, err) \<Rightarrow> (lb # buf # chunks, err)))"

definition NettyEncoder_transform ::
  "'h avro_type \<Rightarrow> header_map avro_type \<Rightarrow> 'h frame_obj \<Rightarrow> buffer list \<times> js_error option"
where
  "NettyEncoder_transform handshakeType mapOfBytesType obj =
     (case NettyEncoder_encode handshakeType mapOfBytesType obj of
        Inl err \<Rightarrow> ([], Some err)
      | Inr bufs \<Rightarrow>
          (case writeInt32BE (obj_id obj) of
             Inl err \<Rightarrow> ([], Some err)
           | Inr idb \<Rightarrow>
               (case writeInt32BE (int (length bufs)) of
                  Inl err \<Rightarrow> ([], Some err)
                | Inr cb \<Rightarrow>
                    (case push_frames bufs of (chunks, err) \<Rightarrow> ((idb @ cb) # chunks, err)))))"

section \<open>Identifiers in scope\<close>

text \<open>
  The file runs in strict mode, so reading an identifier that no enclosing scope binds
  raises a reference error. These are the bindings of the module scope; the global object
  of Node has neither \<open>destroy\<close> nor \<open>onWritableError\<close>.
\<close>

definition module_scope :: "string list" where
  "module_scope =
     [''Channel'', ''Packet'', ''Trace'', ''Router'', ''Service'', ''utils'', ''debug'',
      ''EventEmitter'', ''stream'', ''SystemError'', ''d'', ''discoveryService'',
      ''PROTOCOLS_HEADER'', ''DEADLINE_META'', ''LABELS_META'', ''nettyRouter'', ''NettyRouter'',
      ''NettyBridge'', ''NettyGateway'', ''NettyDecoder'', ''NettyEncoder'', ''NettyPacket'',
      ''intBuffer'', ''isStream'']"

definition resolve :: "string list \<Rightarrow> string \<Rightarrow> js_error + unit" where
  "resolve local_scope x =
     (if x \<in> set local_scope \<or> x \<in> set module_scope then Inr ()
      else Inl (ReferenceError (x @ '' is not defined'')))"

definition PROTOCOLS_HEADER :: string where "PROTOCOLS_HEADER = ''avro.protocols''"
definition DEADLINE_META :: string where "DEADLINE_META = ''avro.trace.deadline''"
definition LABELS_META :: string where "LABELS_META = ''avro.trace.labels''"

section \<open>Services, packets, traces and handshakes\<close>

text \<open>
  A service is known to this file by its hash (a binary string, kept as its bytes) and its
  protocol (kept as its JSON text, so that \<open>JSON.stringify(svc.protocol)\<close> is the text).
\<close>

record service =
  hash :: buffer
  protocol :: string

text \<open>\<open>Packet(id, service, body, headers)\<close> of the channel module.\<close>

record cpacket =
  pkt_id :: int
  pkt_service :: "service option"
  pkt_body :: buffer
  pkt_headers :: header_map

record trace =
  labels :: string
  deadline :: "int option"

datatype hmatch = BOTH | CLIENT | NONE

record handshake_request =
  clientHash :: buffer
  clientProtocol :: "string option"
  serverHash :: buffer
  meta :: "header_map option"

record handshake_response =
  match :: hmatch
  serverProtocol :: "string option"
  r_serverHash :: "buffer option"
  r_meta :: "header_map option"

text \<open>JavaScript truthiness of a string that may be null or undefined.\<close>

definition truthy :: "'a list option \<Rightarrow> bool" where
  "truthy v = (case v of None \<Rightarrow> False | Some s \<Rightarrow> s \<noteq> [])"

section \<open>NettyBridge\<close>

text \<open>
  The collaborators of the bridge that are not in this file: the label and deadline codecs
  of \<open>utils\<close>, and \<open>new Service(JSON.parse(text))\<close>.
\<close>

record bridge_env =
  labelsToBuffer :: "string \<Rightarrow> js_error + buffer"
  dateTimeToBuffer :: "int \<Rightarrow> buffer"
  parseService :: "string option \<Rightarrow> js_error + service"

text \<open>
  An entry of \<open>_callbacks\<close>. The caller's continuation is a number.
\<close>

record call_record =
  cr_cb :: nat
  cr_meta :: header_map
  cr_preq :: cpacket
  cr_retried :: bool

datatype bridge_event = Close | ErrorEvent js_error

datatype target = Readable | Writable | Encoder | Decoder

record bridge =
  closed :: bool
  serverServices :: "buffer \<rightharpoonup> service"
  hashes :: "buffer \<rightharpoonup> buffer"
  callbacks :: "(int \<times> call_record) list"
  listeners :: "(target \<times> string \<times> string) list"
  written :: "handshake_request frame_obj list"
  delivered :: "(nat \<times> (js_error + cpacket)) list"
  emitted :: "bridge_event list"
  released :: bool

text \<open>\<open>Map.prototype.set\<close> and \<open>delete\<close> on a map kept in insertion order.\<close>

fun map_set :: "('k \<times> 'v) list \<Rightarrow> 'k \<Rightarrow> 'v \<Rightarrow> ('k \<times> 'v) list" where
  "map_set [] k v = [(k, v)]"
| "map_set ((k', v') # m) k v = (if k' = k then (k, v) # m else (k', v') # map_set m k v)"

definition map_delete :: "('k \<times> 'v) list \<Rightarrow> 'k \<Rightarrow> ('k \<times> 'v) list" where
  "map_delete m k = filter (\<lambda>p. fst p \<noteq> k) m"

datatype js_arg = StreamArg nat | OtherArg

definition isStream :: "js_arg \<Rightarrow> bool" where
  "isStream a = (case a of StreamArg n \<Rightarrow> True | OtherArg \<Rightarrow> False)"

text \<open>
  The constructor. The handlers are named by the properties that hold them; the listener
  registered on a distinct writable stream is read from the identifier
  \<open>onWritableError\<close>, in the scope of the constructor's parameters.
\<close>

definition NettyBridge_new :: "js_arg \<Rightarrow> js_arg \<Rightarrow> js_error + bridge" where
  "NettyBridge_new readable writable0 =
     (let writable = (if \<not> isStream writable0 then readable else writable0);
          l1 = [(Encoder, ''error'', ''this.destroy''), (Writable, ''finish'', ''_onWritableFinish'')];
          l3 = [(Readable, ''error'', ''_onReadableError''), (Readable, ''end'', ''_onReadableEnd''),
                (Decoder, ''error'', ''this.destroy''), (Decoder, ''data'', ''data'')];
          this = \<lparr>closed = False, serverServices = Map.empty, hashes = Map.empty, callbacks = [],
                  listeners = [], written = [], delivered = [], emitted = [], released = False\<rparr>
      in if readable \<noteq> writable then
           (case resolve [''readable'', ''writable''] ''onWritableError'' of
              Inl err \<Rightarrow> Inl err
            | Inr u \<Rightarrow> Inr (this\<lparr>listeners := l1 @ [(Writable, ''error'', ''onWritableError'')] @ l3\<rparr>))
         else Inr (this\<lparr>listeners := l1 @ l3\<rparr>))"

text \<open>The head of \<open>nettyRouter\<close>: the arguments are shuffled, then the bridge is built.\<close>

definition nettyRouter_bridge :: "js_arg \<Rightarrow> js_arg \<Rightarrow> js_error + bridge" where
  "nettyRouter_bridge readable writable0 =
     (let writable = (if \<not> isStream writable0 then readable else writable0)
      in NettyBridge_new readable writable)"

definition NettyBridge_close :: "bridge \<Rightarrow> bridge" where
  "NettyBridge_close b =
     (if closed b then b else b\<lparr>closed := True, emitted := emitted b @ [Close]\<rparr>)"

definition NettyBridge_release :: "bridge \<Rightarrow> bridge" where
  "NettyBridge_release b =
     b\<lparr>listeners := filter (\<lambda>l. l \<notin> set [(Readable, ''error'', ''_onReadableError''),
                                              (Readable, ''end'', ''_onReadableEnd''),
                                              (Writable, ''error'', ''_onWritableError''),
                                              (Writable, ''finish'', ''_onWritableFinish'')])
                         (listeners b),
       released := True\<rparr>"

definition NettyBridge_untrack :: "bridge \<Rightarrow> int \<Rightarrow> bridge" where
  "NettyBridge_untrack b ident =
     (let b1 = b\<lparr>callbacks := map_delete (callbacks b) ident\<rparr>
      in if closed b1 \<and> callbacks b1 = [] then NettyBridge_release b1 else b1)"

text \<open>
  Modelled from the spec: \<open>Trace.onceInactive\<close> is not in this file; the finalizer it
  returns gives true the first time it is invoked.
  This is the function stored as \<open>cb\<close> in an entry: when \<open>cleanup()\<close> returns true it
  removes the entry and calls the caller's continuation. It runs at most once for an
  entry, since its first run removes the entry, so \<open>cleanup()\<close> is true here.
\<close>

definition invoke_cb :: "bridge \<Rightarrow> int \<Rightarrow> call_record \<Rightarrow> js_error + cpacket \<Rightarrow> bridge" where
  "invoke_cb b ident cr args =
     (let b1 = NettyBridge_untrack b ident
      in b1\<lparr>delivered := delivered b1 @ [(cr_cb cr, args)]\<rparr>)"

definition NettyBridge_destroy :: "bridge \<Rightarrow> js_error option \<Rightarrow> bridge" where
  "NettyBridge_destroy b err =
     (let b1 = NettyBridge_close b;
          b2 = fold (\<lambda>(ident, cr) acc. invoke_cb acc ident cr (Inl (Error ''bridge destroyed'')))
                 (callbacks b1) b1
      in case err of
           None \<Rightarrow> b2
         | Some e \<Rightarrow> b2\<lparr>emitted := emitted b2 @ [ErrorEvent e]\<rparr>)"

definition NettyBridge_send ::
  "bridge \<Rightarrow> cpacket \<Rightarrow> header_map option \<Rightarrow> bool \<Rightarrow> js_error + bridge"
where
  "NettyBridge_send b preq meta_arg includePtcl =
     (case pkt_service preq of
        None \<Rightarrow> Inl (TypeError ''Cannot read properties of undefined'')
      | Some clientSvc \<Rightarrow>
          (let serverHash_v = (if truthy (hashes b (hash clientSvc))
                               then the (hashes b (hash clientSvc)) else hash clientSvc);
               hs = \<lparr>clientHash = hash clientSvc,
                     clientProtocol = (if includePtcl then Some (protocol clientSvc) else None),
                     serverHash = serverHash_v,
                     meta = meta_arg\<rparr>;
               pkt = \<lparr>body = pkt_body preq, headers = pkt_headers preq\<rparr>
           in Inr (b\<lparr>written := written b
                        @ [\<lparr>handshake = Some hs, obj_id = pkt_id preq, packet = pkt\<rparr>]\<rparr>)))"

definition NettyBridge_track ::
  "bridge_env \<Rightarrow> bridge \<Rightarrow> trace \<Rightarrow> cpacket \<Rightarrow> nat \<Rightarrow> bridge \<times> header_map option"
where
  "NettyBridge_track env b tr preq cb =
     (if closed b then (b\<lparr>delivered := delivered b @ [(cb, Inl (Error ''bridge closed''))]\<rparr>, None)
      else
        (case labelsToBuffer env (labels tr) of
           Inl err \<Rightarrow> (b\<lparr>delivered := delivered b @ [(cb, Inl err)]\<rparr>, None)
         | Inr lb \<Rightarrow>
             (let meta_v = [(LABELS_META, lb)]
                    @ (case deadline tr of
                         None \<Rightarrow> []
                       | Some dl \<Rightarrow> [(DEADLINE_META, dateTimeToBuffer env dl)])
              in (b\<lparr>callbacks := map_set (callbacks b) (pkt_id preq)
                       \<lparr>cr_cb = cb, cr_meta = meta_v, cr_preq = preq, cr_retried = False\<rparr>\<rparr>,
                  Some meta_v))))"

text \<open>The function given to \<open>new Channel\<close> by the getter \<open>_channel\<close>.\<close>

definition NettyBridge_channel ::
  "bridge_env \<Rightarrow> bridge \<Rightarrow> trace \<Rightarrow> cpacket \<Rightarrow> nat \<Rightarrow> js_error + bridge"
where
  "NettyBridge_channel env b tr preq cb =
     (case NettyBridge_track env b tr preq cb of
        (b1, meta_v) \<Rightarrow> NettyBridge_send b1 preq meta_v False)"

text \<open>
  The part of the \<open>data\<close> listener that finds the server service of a response: the
  bridge with its caches updated, and the service (possibly undefined); no service at all
  when the listener returns after \<open>destroy\<close>.
\<close>

definition server_service ::
  "bridge_env \<Rightarrow> bridge \<Rightarrow> service \<Rightarrow> handshake_response
    \<Rightarrow> js_error + (bridge \<times> service option option)"
where
  "server_service env b clientSvc hs =
     (if r_serverHash hs \<noteq> None \<or> truthy (serverProtocol hs) then
        (case r_serverHash hs of
           None \<Rightarrow> Inl (TypeError ''Cannot read properties of null'')
         | Some sh \<Rightarrow>
             (case parseService env (serverProtocol hs) of
                Inl err \<Rightarrow>
                  (case resolve [''handshake'', ''id'', ''packet'', ''obj'', ''match'',
                                 ''clientSvc'', ''clientHash'', ''serverSvc'',
                                 ''serverHash'', ''err'', ''readable'', ''writable'']
                          ''destroy'' of
                     Inl rerr \<Rightarrow> Inl rerr
                   | Inr u \<Rightarrow> Inr (NettyBridge_destroy b (Some err), None))
              | Inr serverSvc \<Rightarrow>
                  Inr (b\<lparr>serverServices := (serverServices b)(sh \<mapsto> serverSvc),
                         hashes := (hashes b)(hash clientSvc \<mapsto> sh)\<rparr>,
                       Some (Some serverSvc))))
      else
        Inr (b, Some (if truthy (hashes b (hash clientSvc))
                      then serverServices b (the (hashes b (hash clientSvc)))
                      else Some clientSvc)))"

text \<open>
  The listener of the decoder's \<open>data\<close> event. \<open>Inl\<close> is an exception that leaves the
  listener; nothing of the bridge has changed when one is raised.
\<close>

definition NettyBridge_data ::
  "bridge_env \<Rightarrow> bridge \<Rightarrow> handshake_response frame_obj \<Rightarrow> js_error + bridge"
where
  "NettyBridge_data env b msg =
     (case map_of (callbacks b) (obj_id msg) of
        None \<Rightarrow> Inr b
      | Some obj \<Rightarrow>
          (case handshake msg of
             None \<Rightarrow> Inl (TypeError ''Cannot read properties of null'')
           | Some hs \<Rightarrow>
               (case pkt_service (cr_preq obj) of
                  None \<Rightarrow> Inl (TypeError ''Cannot read properties of undefined'')
                | Some clientSvc \<Rightarrow>
                    (case server_service env b clientSvc hs of
                       Inl err \<Rightarrow> Inl err
                     | Inr (b1, None) \<Rightarrow> Inr b1
                     | Inr (b1, Some serverSvc) \<Rightarrow>
                         if match hs = NONE \<and> \<not> cr_retried obj then
                           NettyBridge_send
                             (b1\<lparr>callbacks := map_set (callbacks b1) (obj_id msg)
                                                  (obj\<lparr>cr_retried := True\<rparr>)\<rparr>)
                             (cr_preq obj) (Some (cr_meta obj)) True
                         else
                           Inr (invoke_cb b1 (obj_id msg) obj
                                  (Inr \<lparr>pkt_id = obj_id msg, pkt_service = serverSvc,
                                        pkt_body = body (packet msg),
                                        pkt_headers = headers (packet msg)\<rparr>))))))"

section \<open>NettyGateway\<close>

text \<open>
  \<open>router.services\<close> is defined outside this file. The listener reads it in three ways:
  by iteration, through its \<open>size\<close> property and through its property \<open>0\<close>. An array
  has no \<open>size\<close>; a set or a map has no property \<open>0\<close>.
\<close>

record services =
  items :: "service list"
  size_prop :: "nat option"
  index0 :: "service option"

definition array_of :: "service list \<Rightarrow> services" where
  "array_of svcs = \<lparr>items = svcs, size_prop = None,
                     index0 = (case svcs of [] \<Rightarrow> None | svc # rest \<Rightarrow> Some svc)\<rparr>"

definition set_of :: "service list \<Rightarrow> services" where
  "set_of svcs = \<lparr>items = svcs, size_prop = Some (length svcs), index0 = None\<rparr>"

record router =
  router_services :: services
  router_service :: "service \<Rightarrow> service option"

text \<open>The collaborators of the gateway that are not in this file.\<close>

record gateway_env =
  dateTimeFromBuffer :: "buffer \<Rightarrow> js_error + int"
  labelsFromBuffer :: "buffer \<Rightarrow> js_error + string"
  traceActive :: "int option \<Rightarrow> bool"
  newService :: "string option \<Rightarrow> js_error + service"
  discoveryHash :: buffer
  systemErrorToBuffer :: "string \<Rightarrow> buffer"
  protocolsToBuffer :: "string list \<Rightarrow> buffer"

text \<open>
  The state read and written by the listener: the gateway's \<open>_clientServices\<close> and the
  connection's \<open>clientSvc\<close>.
\<close>

record gateway =
  clientServices :: "buffer \<rightharpoonup> service"
  clientSvc :: "service option"

text \<open>
  What one run of the listener does: it emits an error on the readable stream, drops the
  request, writes a response to the encoder, calls the router's channel (with the
  handshake response kept for the reply), or leaves by an exception.
\<close>

datatype outcome =
    ReadableError js_error
  | Dropped
  | Responded "handshake_response frame_obj"
  | Forwarded "trace option" cpacket "handshake_response option"
  | Threw js_error

text \<open>\<open>hreq.meta && hreq.meta[key]\<close>.\<close>

definition meta_lookup :: "header_map option \<Rightarrow> string \<Rightarrow> buffer option" where
  "meta_lookup m k = (case m of None \<Rightarrow> None | Some kvs \<Rightarrow> map_of kvs k)"

text \<open>
  The branch taken when the client hash is unknown and the handshake has no client
  protocol. At the assignment of \<open>hres.serverHash\<close> the constant \<open>serverSvc\<close> of the
  enclosing block is declared further down and not yet initialised.
\<close>

definition respond_none ::
  "gateway_env \<Rightarrow> router \<Rightarrow> int \<Rightarrow> outcome"
where
  "respond_none env rt ident =
     (let hres = \<lparr>match = NONE, serverProtocol = None, r_serverHash = None, r_meta = None\<rparr>;
          serverSvcs = router_services rt
      in if size_prop serverSvcs = Some 1 then
           (case index0 serverSvcs of
              None \<Rightarrow> Threw (TypeError ''Cannot read properties of undefined'')
            | Some svc0 \<Rightarrow>
                (let hres1 = hres\<lparr>serverProtocol := Some (protocol svc0)\<rparr>
                 in Threw (ReferenceError ''Cannot access serverSvc before initialization'')))
         else
           Responded \<lparr>handshake = Some hres, obj_id = ident,
                      packet = forSystemError
                                 (systemErrorToBuffer env ''ERR_AVRO_UNKNOWN_CLIENT_PROTOCOL'') None\<rparr>)"

text \<open>The part of the listener that follows the resolution of the client service.\<close>

definition match_server ::
  "router \<Rightarrow> service \<Rightarrow> js_error + handshake_response"
where
  "match_server rt csvc =
     (let hres = \<lparr>match = BOTH, serverProtocol = None, r_serverHash = None, r_meta = None\<rparr>
      in case router_service rt csvc of
           None \<Rightarrow>
             (let hres1 = hres\<lparr>match := CLIENT\<rparr>
              in Inl (TypeError ''Cannot read properties of undefined''))
         | Some serverSvc \<Rightarrow> Inr hres)"

definition forward :: "trace option \<Rightarrow> int \<Rightarrow> service \<Rightarrow> npacket \<Rightarrow> handshake_response option \<Rightarrow> outcome"
where
  "forward tr ident csvc pkt hres =
     Forwarded tr \<lparr>pkt_id = ident, pkt_service = Some csvc, pkt_body = body pkt,
                   pkt_headers = headers pkt\<rparr> hres"

definition NettyGateway_data ::
  "gateway_env \<Rightarrow> router \<Rightarrow> gateway \<Rightarrow> handshake_request frame_obj \<Rightarrow> gateway \<times> outcome"
where
  "NettyGateway_data env rt g msg =
     (case handshake msg of
        None \<Rightarrow>
          (case clientSvc g of
             None \<Rightarrow> (g, ReadableError (Error ''expected handshake''))
           | Some csvc \<Rightarrow> (g, forward None (obj_id msg) csvc (packet msg) None))
      | Some hreq \<Rightarrow>
          (case (case meta_lookup (meta hreq) DEADLINE_META of
                   None \<Rightarrow> Inr None
                 | Some deadlineBuf \<Rightarrow>
                     (case dateTimeFromBuffer env deadlineBuf of
                        Inl err \<Rightarrow> Inl err
                      | Inr dl \<Rightarrow> Inr (Some dl))) of
             Inl err \<Rightarrow> (g, ReadableError err)
           | Inr dl \<Rightarrow>
               if \<not> traceActive env dl then (g, Dropped)
               else
                 (case (case meta_lookup (meta hreq) LABELS_META of
                          None \<Rightarrow> Inr ''''
                        | Some metaLabels \<Rightarrow> labelsFromBuffer env metaLabels) of
                    Inl err \<Rightarrow> (g, ReadableError err)
                  | Inr lbls \<Rightarrow>
                      (let tr = \<lparr>labels = lbls, deadline = dl\<rparr>
                       in if clientHash hreq = discoveryHash env then
                            (g, Responded
                                  \<lparr>handshake = Some \<lparr>match = BOTH, serverProtocol = None,
                                                      r_serverHash = None, r_meta = None\<rparr>,
                                   obj_id = obj_id msg,
                                   packet = \<lparr>body = [0],
                                             headers = [(PROTOCOLS_HEADER,
                                               protocolsToBuffer env
                                                 (map protocol (items (router_services rt))))]\<rparr>\<rparr>)
                          else
                            (let g1 = g\<lparr>clientSvc := clientServices g (clientHash hreq)\<rparr>
                             in case (case clientSvc g1 of
                                        Some csvc \<Rightarrow> Inr (g1, csvc)
                                      | None \<Rightarrow>
                                          if \<not> truthy (clientProtocol hreq)
                                          then Inl (g1, respond_none env rt (obj_id msg))
                                          else
                                            (case newService env (clientProtocol hreq) of
                                               Inl err \<Rightarrow> Inl (g1, ReadableError err)
                                             | Inr csvc \<Rightarrow>
                                                 Inr (g1\<lparr>clientSvc := Some csvc,
                                                         clientServices :=
                                                           (clientServices g1)(clientHash hreq \<mapsto> csvc)\<rparr>,
                                                      csvc))) of
                                  Inl done \<Rightarrow> done
                                | Inr (g2, csvc) \<Rightarrow>
                                    (case match_server rt csvc of
                                       Inl err \<Rightarrow> (g2, Threw err)
                                     | Inr hres \<Rightarrow>
                                         (g2, forward (Some tr) (obj_id msg) csvc (packet msg)
                                                (Some hres))))))))"

section \<open>Notions used to state the properties\<close>

definition int32 :: "int \<Rightarrow> bool" where
  "int32 n \<longleftrightarrow> - (2 ^ 31) \<le> n \<and> n < 2 ^ 31"

text \<open>
  A frame-group object with a handshake is well-formed for the two types when both
  serialise, each type decodes its own bytes back from the front of what follows them in
  the frames, the two frames have 32-bit lengths and the id is a 32-bit integer.
\<close>

definition wellformed :: "'h avro_type \<Rightarrow> header_map avro_type \<Rightarrow> 'h frame_obj \<Rightarrow> bool" where
  "wellformed handshakeType mapOfBytesType obj =
     (case handshake obj of
        None \<Rightarrow> False
      | Some h \<Rightarrow>
          (case toBuffer handshakeType h of
             Inl err \<Rightarrow> False
           | Inr hb \<Rightarrow>
               (case toBuffer mapOfBytesType (headers (packet obj)) of
                  Inl err \<Rightarrow> False
                | Inr mb \<Rightarrow>
                    decode handshakeType (hb @ mb @ body (packet obj)) = Inr (Decoded h (length hb))
                    \<and> decode mapOfBytesType (mb @ body (packet obj))
                        = Inr (Decoded (headers (packet obj)) (length mb))
                    \<and> length hb < 2 ^ 31
                    \<and> length (mb @ body (packet obj)) < 2 ^ 31
                    \<and> int32 (obj_id obj))))"

text \<open>The chunks pushed by the encoder for an object, and their bytes in one buffer.\<close>

definition pushed :: "'h avro_type \<Rightarrow> header_map avro_type \<Rightarrow> 'h frame_obj \<Rightarrow> buffer list" where
  "pushed ht mt obj = fst (NettyEncoder_transform ht mt obj)"

definition encoded :: "'h avro_type \<Rightarrow> header_map avro_type \<Rightarrow> 'h frame_obj \<Rightarrow> buffer" where
  "encoded ht mt obj = concat (pushed ht mt obj)"

text \<open>A decoder between two frame groups that still expects handshakes.\<close>

definition idle :: "dstate \<Rightarrow> bool" where
  "idle s \<longleftrightarrow> d_expectHandshake s \<and> d_id s = None \<and> d_bufs s = []"

text \<open>A frame as the encoder writes it: its length, then its bytes.\<close>

definition frame_bytes :: "buffer \<Rightarrow> buffer" where
  "frame_bytes f = int32_bytes (int (length f)) @ f"

text \<open>
  The frames of the group written for an object, and the bytes of a group in progress that
  a decoder has taken out of its buffer: the header (the id, and the frame count, which is
  the number of frames still expected plus those collected) and the collected frames,
  each after its length.
\<close>

definition frames :: "'h avro_type \<Rightarrow> header_map avro_type \<Rightarrow> 'h frame_obj \<Rightarrow> buffer list" where
  "frames ht mt obj = (case NettyEncoder_encode ht mt obj of Inl err \<Rightarrow> [] | Inr bufs \<Rightarrow> bufs)"


text \<open>
  The invariant of a decoder that is fed a well-formed stream chunk by chunk: the state
  \<open>s\<close> expects handshakes and cannot go on without more input, and its buffered bytes
  followed by the remaining input \<open>R\<close> are the rest of the stream. Between groups that
  rest is the groups of \<open>objs\<close> and the stray bytes \<open>tail\<close>; inside a group it starts with
  the frames still to be read, which follow the collected ones in the group of the first
  object.
\<close>

definition awaits ::
  "'h avro_type \<Rightarrow> header_map avro_type \<Rightarrow> dstate \<Rightarrow> buffer \<Rightarrow> 'h frame_obj list \<Rightarrow> buffer \<Rightarrow> bool"
where
  "awaits ht mt s R objs tail \<longleftrightarrow>
     d_expectHandshake s \<and> length tail < 8 \<and>
     (case d_id s of
        None \<Rightarrow>
          d_bufs s = [] \<and> d_frameCount s = 0 \<and> length (d_buf s) < 8
          \<and> list_all (wellformed ht mt) objs
          \<and> d_buf s @ R = concat (map (encoded ht mt) objs) @ tail
      | Some i \<Rightarrow>
          (\<exists>fs obj objs'. fs \<noteq> [] \<and> d_frameCount s = int (length fs)
             \<and> objs = obj # objs' \<and> wellformed ht mt obj \<and> list_all (wellformed ht mt) objs'
             \<and> i = obj_id obj \<and> d_bufs s @ fs = frames ht mt obj
             \<and> d_buf s @ R = concat (map frame_bytes fs) @ concat (map (encoded ht mt) objs') @ tail
             \<and> length (d_buf s) < length (frame_bytes (hd fs))))"


section \<open>A concrete instance of the parameters\<close>

text \<open>
  To run the model on concrete inputs the type parameters are instantiated with two small
  prefix codes: a value of \<open>lp_type\<close> is a byte string written after its length; a header
  map is written as its number of entries followed by each key and value after their
  lengths. Both report a truncated buffer the way \<open>decode\<close> does.
\<close>

definition lp_toBuffer :: "buffer \<Rightarrow> js_error + buffer" where
  "lp_toBuffer v =
     (if length v < 256 then Inr (of_nat (length v) # v) else Inl (Error ''invalid value''))"

definition lp_decode :: "buffer \<Rightarrow> js_error + buffer decoded" where
  "lp_decode buf =
     (case buf of
        [] \<Rightarrow> Inr Truncated
      | n # rest \<Rightarrow>
          if length rest < unat n then Inr Truncated
          else Inr (Decoded (take (unat n) rest) (Suc (unat n))))"

definition lp_type :: "buffer avro_type" where
  "lp_type = \<lparr>toBuffer = lp_toBuffer, decode = lp_decode\<rparr>"

fun entries_bytes :: "header_map \<Rightarrow> js_error + buffer" where
  "entries_bytes [] = Inr []"
| "entries_bytes ((k, v) # m) =
     (if length k < 256 \<and> length v < 256 then
        (case entries_bytes m of
           Inl err \<Rightarrow> Inl err
         | Inr bs \<Rightarrow> Inr (of_nat (length k) # map of_char k @ of_nat (length v) # v @ bs))
      else Inl (Error ''invalid value''))"

fun decode_entries :: "nat \<Rightarrow> buffer \<Rightarrow> (header_map \<times> nat) option" where
  "decode_entries 0 buf = Some ([], 0)"
| "decode_entries (Suc n) buf =
     (case buf of
        [] \<Rightarrow> None
      | kl # r1 \<Rightarrow>
          if length r1 < unat kl then None
          else (case drop (unat kl) r1 of
                  [] \<Rightarrow> None
                | vl # r2 \<Rightarrow>
                    if length r2 < unat vl then None
                    else (case decode_entries n (drop (unat vl) r2) of
                            None \<Rightarrow> None
                          | Some (m, off) \<Rightarrow>
                              Some ((map (\<lambda>b. char_of (unat b)) (take (unat kl) r1),
                                     take (unat vl) r2) # m,
                                    2 + unat kl + unat vl + off))))"

definition hm_toBuffer :: "header_map \<Rightarrow> js_error + buffer" where
  "hm_toBuffer m =
     (if length m < 256 then
        (case entries_bytes m of Inl err \<Rightarrow> Inl err | Inr bs \<Rightarrow> Inr (of_nat (length m) # bs))
      else Inl (Error ''invalid value''))"

definition hm_decode :: "buffer \<Rightarrow> js_error + header_map decoded" where
  "hm_decode buf =
     (case buf of
        [] \<Rightarrow> Inr Truncated
      | n # rest \<Rightarrow>
          (case decode_entries (unat n) rest of
             None \<Rightarrow> Inr Truncated
           | Some (m, off) \<Rightarrow> Inr (Decoded m (Suc off))))"

definition hm_type :: "header_map avro_type" where
  "hm_type = \<lparr>toBuffer = hm_toBuffer, decode = hm_decode\<rparr>"

text \<open>An object with a handshake, and one without (empty headers, empty body).\<close>

definition example_obj :: "buffer frame_obj" where
  "example_obj = \<lparr>handshake = Some [1, 2], obj_id = 7,
                   packet = \<lparr>body = [5, 6], headers = [(''k'', [9])]\<rparr>\<rparr>"

definition bare_obj :: "buffer frame_obj" where
  "bare_obj = \<lparr>handshake = None, obj_id = 1, packet = \<lparr>body = [], headers = []\<rparr>\<rparr>"

text \<open>
  An object without a handshake whose payload (the empty header map, then the body 0) also
  reads as an empty handshake followed by the empty header map and an empty body.
\<close>

definition ambiguous_obj :: "buffer frame_obj" where
  "ambiguous_obj = \<lparr>handshake = None, obj_id = 1, packet = \<lparr>body = [0], headers = []\<rparr>\<rparr>"

text \<open>A client service, a call on it, and a bridge over one duplex stream.\<close>

definition echo_service :: service where
  "echo_service = \<lparr>hash = [1], protocol = ''Echo''\<rparr>"

definition example_env :: bridge_env where
  "example_env =
     \<lparr>labelsToBuffer = (\<lambda>l. Inr [0]),
      dateTimeToBuffer = (\<lambda>dl. [0]),
      parseService = (\<lambda>text. if text = Some ''Echo'' then Inr echo_service
                              else Inl (Error ''invalid protocol''))\<rparr>"

definition example_trace :: trace where
  "example_trace = \<lparr>labels = [], deadline = None\<rparr>"

definition example_preq :: cpacket where
  "example_preq = \<lparr>pkt_id = 5, pkt_service = Some echo_service, pkt_body = [7], pkt_headers = []\<rparr>"

definition open_bridge :: bridge where
  "open_bridge =
     \<lparr>closed = False, serverServices = Map.empty, hashes = Map.empty, callbacks = [],
      listeners = [(Encoder, ''error'', ''this.destroy''), (Writable, ''finish'', ''_onWritableFinish''),
                   (Readable, ''error'', ''_onReadableError''), (Readable, ''end'', ''_onReadableEnd''),
                   (Decoder, ''error'', ''this.destroy''), (Decoder, ''data'', ''data'')],
      written = [], delivered = [], emitted = [], released = False\<rparr>"

text \<open>The same bridge with the call of \<open>example_preq\<close> pending.\<close>

definition pending_bridge :: bridge where
  "pending_bridge =
     open_bridge
       \<lparr>callbacks := [(5, \<lparr>cr_cb = 0, cr_meta = [(LABELS_META, [0])], cr_preq = example_preq,
                           cr_retried = False\<rparr>)],
        written := [\<lparr>handshake = Some \<lparr>clientHash = [1], clientProtocol = None,
                                          serverHash = [1], meta = Some [(LABELS_META, [0])]\<rparr>,
                      obj_id = 5, packet = \<lparr>body = [7], headers = []\<rparr>\<rparr>]\<rparr>"


definition bad_protocol_response :: "hmatch \<Rightarrow> handshake_response frame_obj" where
  "bad_protocol_response m =
     \<lparr>handshake = Some \<lparr>match = m, serverProtocol = Some ''{'', r_serverHash = Some [2],
                         r_meta = None\<rparr>,
      obj_id = 5, packet = \<lparr>body = [1, 0, 3], headers = []\<rparr>\<rparr>"

text \<open>A gateway, routers that own one service, and a request with an unknown client hash.\<close>

definition example_gateway_env :: gateway_env where
  "example_gateway_env =
     \<lparr>dateTimeFromBuffer = (\<lambda>b. Inr 0),
      labelsFromBuffer = (\<lambda>b. Inr []),
      traceActive = (\<lambda>dl. True),
      newService = (\<lambda>text. if text = Some ''Echo'' then Inr echo_service
                            else Inl (Error ''invalid protocol'')),
      discoveryHash = [0],
      systemErrorToBuffer = (\<lambda>code. [3]),
      protocolsToBuffer = (\<lambda>ps. [4])\<rparr>"

definition array_router :: router where
  "array_router = \<lparr>router_services = array_of [echo_service], router_service = (\<lambda>c. None)\<rparr>"

definition set_router :: router where
  "set_router = \<lparr>router_services = set_of [echo_service], router_service = (\<lambda>c. None)\<rparr>"

definition fresh_gateway :: gateway where
  "fresh_gateway = \<lparr>clientServices = Map.empty, clientSvc = None\<rparr>"

definition echo_gateway :: gateway where
  "echo_gateway = \<lparr>clientServices = [[1] \<mapsto> echo_service], clientSvc = None\<rparr>"

definition example_request :: "buffer \<Rightarrow> handshake_request frame_obj" where
  "example_request h =
     \<lparr>handshake = Some \<lparr>clientHash = h, clientProtocol = None, serverHash = h, meta = None\<rparr>,
      obj_id = 3, packet = \<lparr>body = [8], headers = []\<rparr>\<rparr>"

section \<open>Properties of the buffer primitives\<close>

lemma int32_byte_split:
  assumes "0 \<le> (u::int)" "u < 2 ^ 32"
  shows "((u div 2 ^ 24 mod 256 * 256 + u div 2 ^ 16 mod 256) * 256 + u div 2 ^ 8 mod 256) * 256
          + u mod 256 = u"
proof -
  define a where "a = u div 256"
  define b where "b = a div 256"
  define c where "c = b div 256"
  have e1: "u div 2 ^ 8 = a" by (simp add: a_def)
  have e2: "u div 2 ^ 16 = b" by (simp add: a_def b_def zdiv_zmult2_eq)
  have e3: "u div 2 ^ 24 = c" by (simp add: a_def b_def c_def zdiv_zmult2_eq)
  have "u div 16777216 \<le> 4294967295 div (16777216::int)"
    by (rule zdiv_mono1) (use assms in simp_all)
  then have "0 \<le> c" "c < 256"
    using assms by (simp_all add: e3 [symmetric] pos_imp_zdiv_nonneg_iff)
  then have c: "c mod 256 = c" by simp
  have "c * 256 + b mod 256 = b" by (simp add: c_def)
  moreover have "b * 256 + a mod 256 = a" by (simp add: b_def)
  moreover have "a * 256 + u mod 256 = u" by (simp add: a_def)
  ultimately have "((c mod 256 * 256 + b mod 256) * 256 + a mod 256) * 256 + u mod 256 = u"
    by (simp only: c)
  then show ?thesis unfolding e1 e2 e3 .
qed

lemma byte_of_int: "int (unat (of_int k :: byte)) = k mod 256"
  by (simp add: unat_eq_nat_uint uint_word_of_int)

lemma read_bytes4:
  "readInt32BE ([b0, b1, b2, b3] @ rest) 0 =
     (let u = ((int (unat b0) * 256 + int (unat b1)) * 256 + int (unat b2)) * 256 + int (unat b3)
      in if u \<ge> 2 ^ 31 then u - 2 ^ 32 else u)"
  by (simp add: readInt32BE_def)

lemma readInt32BE_int32_bytes:
  assumes "- (2 ^ 31) \<le> n" "n < 2 ^ 31"
  shows "readInt32BE (int32_bytes n @ rest) 0 = n"
proof -
  define u where "u = n mod 2 ^ 32"
  have u: "0 \<le> u" "u < 2 ^ 32" by (simp_all add: u_def)
  have "readInt32BE (int32_bytes n @ rest) 0 =
     (let v = ((u div 2 ^ 24 mod 256 * 256 + u div 2 ^ 16 mod 256) * 256 + u div 2 ^ 8 mod 256) * 256
          + u mod 256 in if v \<ge> 2 ^ 31 then v - 2 ^ 32 else v)"
    unfolding int32_bytes_def Let_def u_def [symmetric] read_bytes4 byte_of_int ..
  then have r: "readInt32BE (int32_bytes n @ rest) 0 = (if u \<ge> 2 ^ 31 then u - 2 ^ 32 else u)"
    unfolding int32_byte_split [OF u] Let_def .
  show ?thesis
  proof (cases "0 \<le> n")
    case True
    with assms have "u = n" by (simp add: u_def)
    with r assms show ?thesis by simp
  next
    case False
    have "(n + 2 ^ 32) mod 2 ^ 32 = n + 2 ^ 32"
      using False assms by (intro mod_pos_pos_trivial) simp_all
    then have "u = n + 2 ^ 32" by (simp add: u_def)
    with r False assms show ?thesis by simp
  qed
qed

lemma length_int32_bytes [simp]: "length (int32_bytes n) = 4"
  by (simp add: int32_bytes_def Let_def)

section \<open>Properties of the decoder and the encoder\<close>

lemma readFrames_stop:
  "frameCount = 0 \<or> length buf < 4 \<or> int (length buf) < readInt32BE buf 0 + 4
   \<Longrightarrow> readFrames frameCount bufs buf = Some (frameCount, bufs, buf)"
  by (subst readFrames.simps) auto

lemma slice_frame:
  "length a = 4 \<Longrightarrow> slice (a @ data @ rest) 4 (int (length data) + 4) = data"
  by (simp add: slice_def clamp_index_def Let_def nat_add_distrib)

lemma slice_from_frame:
  "length a = 4 \<Longrightarrow> slice_from (a @ data @ rest) (int (length data) + 4) = rest"
  by (simp add: slice_from_def clamp_index_def nat_add_distrib)

lemma readFrames_frame:
  assumes "frameCount \<noteq> 0" "length data < 2 ^ 31"
  shows "readFrames frameCount bufs (int32_bytes (int (length data)) @ data @ rest)
         = readFrames (frameCount - 1) (bufs @ [data]) rest"
proof -
  have r: "readInt32BE (int32_bytes (int (length data)) @ data @ rest) 0 = int (length data)"
    using assms by (intro readInt32BE_int32_bytes) simp_all
  show ?thesis
    by (subst readFrames.simps) (simp add: r assms slice_frame slice_from_frame)
qed

lemma readInt32BE_at4:
  "length a = 4 \<Longrightarrow> readInt32BE (a @ b) 4 = readInt32BE b 0"
  by (simp add: readInt32BE_def nth_append eval_nat_numeral)

lemma slice_from_8:
  "length a = 8 \<Longrightarrow> slice_from (a @ rest) 8 = rest"
  by (simp add: slice_from_def clamp_index_def min_def)

lemma slice_from_prefix:
  "slice_from (a @ rest) (int (length a)) = rest"
  by (simp add: slice_from_def clamp_index_def min_def)

lemma wellformedE:
  assumes "wellformed ht mt obj"
  obtains h hb mb where
    "handshake obj = Some h" "toBuffer ht h = Inr hb"
    "toBuffer mt (headers (packet obj)) = Inr mb"
    "decode ht (hb @ mb @ body (packet obj)) = Inr (Decoded h (length hb))"
    "decode mt (mb @ body (packet obj)) = Inr (Decoded (headers (packet obj)) (length mb))"
    "length hb < 2 ^ 31" "length (mb @ body (packet obj)) < 2 ^ 31" "int32 (obj_id obj)"
  using assms unfolding wellformed_def
  by (auto split: option.splits sum.splits)

lemma encoder_chunks:
  assumes "handshake obj = Some h" "toBuffer ht h = Inr hb"
    "toBuffer mt (headers (packet obj)) = Inr mb"
    "length hb < 2 ^ 31" "length (mb @ body (packet obj)) < 2 ^ 31" "int32 (obj_id obj)"
  shows "NettyEncoder_transform ht mt obj =
     ([int32_bytes (obj_id obj) @ int32_bytes 2,
       int32_bytes (int (length hb)), hb,
       int32_bytes (int (length (mb @ body (packet obj)))), mb @ body (packet obj)], None)"
  using assms
  by (simp add: NettyEncoder_transform_def NettyEncoder_encode_def toPayload_def
      writeInt32BE_def intBuffer_def int32_def)

lemma decode_group:
  assumes "handshake obj = Some h"
    "decode ht (hb @ mb @ body (packet obj)) = Inr (Decoded h (length hb))"
    "decode mt (mb @ body (packet obj)) = Inr (Decoded (headers (packet obj)) (length mb))"
    "d_expectHandshake s"
  shows "NettyDecoder_decode ht mt s (obj_id obj) (hb @ mb @ body (packet obj)) = Inr (s, obj)"
  using assms
  by (simp add: NettyDecoder_decode_def decode_with_def forPayload_def slice_from_prefix)

lemma transform_loop_wait:
  "d_id s = None \<Longrightarrow> length buf < 8 \<Longrightarrow>
   transform_loop ht mt s buf = Some (s\<lparr>d_buf := buf\<rparr>, [], None)"
  by (subst transform_loop.simps) simp

lemma transform_loop_frames_wait:
  assumes "d_id s = Some i" "readFrames (d_frameCount s) (d_bufs s) buf = Some (fc, bs, buf2)"
    "fc \<noteq> 0"
  shows "transform_loop ht mt s buf
         = Some (s\<lparr>d_frameCount := fc, d_bufs := bs, d_buf := buf2\<rparr>, [], None)"
  by (subst transform_loop.simps) (simp add: assms)

lemma transform_loop_frames_done:
  assumes "d_id s = Some i" "readFrames (d_frameCount s) (d_bufs s) buf = Some (0, bs, buf2)"
    "NettyDecoder_decode ht mt (s\<lparr>d_frameCount := 0, d_bufs := bs\<rparr>) i (concat bs) = Inr (s3, obj)"
  shows "transform_loop ht mt s buf
         = Option.bind (transform_loop ht mt (s3\<lparr>d_bufs := [], d_id := None\<rparr>) buf2)
             (\<lambda>(s4, objs, err). Some (s4, obj # objs, err))"
  by (subst transform_loop.simps) (simp add: assms)

lemma decode_flag:
  assumes "NettyDecoder_decode ht mt s i buf = Inr (s', obj)"
  shows "d_expectHandshake s' \<longrightarrow> d_expectHandshake s"
    and "d_expectHandshake s \<Longrightarrow> s' = s \<and> handshake obj \<noteq> None"
    and "handshake obj = None \<Longrightarrow> \<not> d_expectHandshake s'"
  using assms
  by (auto simp: NettyDecoder_decode_def decode_with_def split: sum.splits if_splits decoded.splits)

text \<open>
  Rule induction over the runs of the outer loop that return: a run waits for a header,
  waits for frames, stops at a decoding error, or pushes an object and goes on.
\<close>

lemma transform_loop_returns_induct [consumes 1, case_names header frames error object]:
  assumes run: "transform_loop ht mt s buf = Some r"
    and header: "\<And>s buf. d_id s = None \<Longrightarrow> length buf < 8 \<Longrightarrow> P s (s\<lparr>d_buf := buf\<rparr>, [], None)"
    and frames: "\<And>s s1 fc bs buf2. d_expectHandshake s1 = d_expectHandshake s \<Longrightarrow> fc \<noteq> 0 \<Longrightarrow>
        P s (s1\<lparr>d_frameCount := fc, d_bufs := bs, d_buf := buf2\<rparr>, [], None)"
    and error: "\<And>s s2 i b err. d_expectHandshake s2 = d_expectHandshake s \<Longrightarrow>
        NettyDecoder_decode ht mt s2 i b = Inl err \<Longrightarrow> P s (s2, [], Some err)"
    and object: "\<And>s s2 i b s3 obj s4 objs err. d_expectHandshake s2 = d_expectHandshake s \<Longrightarrow>
        NettyDecoder_decode ht mt s2 i b = Inr (s3, obj) \<Longrightarrow>
        P (s3\<lparr>d_bufs := [], d_id := None\<rparr>) (s4, objs, err) \<Longrightarrow> P s (s4, obj # objs, err)"
  shows "P s r"
proof -
  have "ht' = ht \<and> mt' = mt \<longrightarrow> P s r" if "transform_loop ht' mt' s buf = Some r" for ht' mt'
    using that
  proof (induction rule: transform_loop.raw_induct [rotated 1, consumes 1])
    case (1 loop ht' mt' s buf r)
    show ?case
    proof (intro impI, elim conjE)
      assume eq: "ht' = ht" "mt' = mt"
      show "P s r"
      proof (cases "d_id s = None \<and> length buf < 8")
        case True
        with 1(2) header show ?thesis by auto
      next
        case False
        define s1 where "s1 = (if d_id s = None
                    then s\<lparr>d_id := Some (readInt32BE buf 0), d_frameCount := readInt32BE buf 4\<rparr>
                    else s)"
        define buf1 where "buf1 = (if d_id s = None then slice_from buf 8 else buf)"
        have f1: "d_expectHandshake s1 = d_expectHandshake s" by (simp add: s1_def)
        from 1(2) False obtain fc bs buf2 where
          rf: "readFrames (d_frameCount s1) (d_bufs s1) buf1 = Some (fc, bs, buf2)"
          and rest: "(let s2 = s1\<lparr>d_frameCount := fc, d_bufs := bs\<rparr>
                   in if fc \<noteq> 0 then Some (s2\<lparr>d_buf := buf2\<rparr>, [], None)
                      else case NettyDecoder_decode ht' mt' s2 (the (d_id s2)) (concat bs) of
                           Inl err \<Rightarrow> Some (s2, [], Some err)
                           | Inr (s3, obj) \<Rightarrow>
                               Option.bind (loop ht' mt' (s3\<lparr>d_bufs := [], d_id := None\<rparr>) buf2)
                                (\<lambda>(s4, objs, err). Some (s4, obj # objs, err))) = Some r"
          unfolding s1_def buf1_def
          by (auto simp: Let_def bind_eq_Some_conv simp del: split_paired_Ex)
        define s2 where "s2 = s1\<lparr>d_frameCount := fc, d_bufs := bs\<rparr>"
        have f2: "d_expectHandshake s2 = d_expectHandshake s" by (simp add: s2_def f1)
        show ?thesis
        proof (cases "fc \<noteq> 0")
          case True
          with rest have "r = (s1\<lparr>d_frameCount := fc, d_bufs := bs, d_buf := buf2\<rparr>, [], None)"
            by auto
          with frames [OF f1 True] show ?thesis by simp
        next
          case fc0: False
          show ?thesis
          proof (cases "NettyDecoder_decode ht mt s2 (the (d_id s2)) (concat bs)")
            case (Inl err)
            with rest fc0 have "r = (s2, [], Some err)" by (auto simp: s2_def [symmetric] eq)
            with error [OF f2 Inl] show ?thesis by simp
          next
            case (Inr p)
            obtain s3 obj where p: "p = (s3, obj)" by (cases p)
            from rest fc0 Inr p obtain s4 objs err where
              l: "loop ht' mt' (s3\<lparr>d_bufs := [], d_id := None\<rparr>) buf2 = Some (s4, objs, err)"
              and r: "r = (s4, obj # objs, err)"
              by (auto simp: s2_def [symmetric] eq bind_eq_Some_conv)
            from 1(1) [OF l] eq have "P (s3\<lparr>d_bufs := [], d_id := None\<rparr>) (s4, objs, err)" by simp
            with object [OF f2 Inr [unfolded p]] r show ?thesis by simp
          qed
        qed
      qed
    qed
  qed
  with run show ?thesis by blast
qed

lemma transform_loop_flag:
  assumes "transform_loop ht mt s buf = Some (s', objs, err)"
  shows "d_expectHandshake s' \<longrightarrow> d_expectHandshake s"
proof -
  from assms have "d_expectHandshake (fst (s', objs, err)) \<longrightarrow> d_expectHandshake s"
  proof (induction rule: transform_loop_returns_induct)
    case (object s s2 i b s3 obj s4 objs err)
    with decode_flag(1) [OF object(2)] show ?case by simp
  qed simp_all
  then show ?thesis by simp
qed

lemma transform_loop_expecting:
  assumes "transform_loop ht mt s buf = Some (s', objs, err)" "d_expectHandshake s"
  shows "d_expectHandshake s' \<and> (\<forall>obj \<in> set objs. handshake obj \<noteq> None)"
proof -
  from assms(1) have "d_expectHandshake s \<longrightarrow>
     d_expectHandshake (fst (s', objs, err)) \<and> (\<forall>obj \<in> set (fst (snd (s', objs, err))). handshake obj \<noteq> None)"
  proof (induction rule: transform_loop_returns_induct)
    case (object s s2 i b s3 obj s4 objs err)
    with decode_flag(2) [OF object(2)] show ?case by auto
  qed simp_all
  with assms(2) show ?thesis by simp
qed

lemma feed_flag:
  "feed ht mt s chunks = Some (s', objs, err) \<Longrightarrow> d_expectHandshake s' \<longrightarrow> d_expectHandshake s"
proof (induction chunks arbitrary: s s' objs err)
  case Nil
  then show ?case by simp
next
  case (Cons chunk chunks)
  from Cons.prems obtain s1 objs1 err1 where
    t: "NettyDecoder_transform ht mt s chunk = Some (s1, objs1, err1)"
    by (auto split: option.splits)
  from t have f1: "d_expectHandshake s1 \<longrightarrow> d_expectHandshake s"
    unfolding NettyDecoder_transform_def by (rule transform_loop_flag)
  show ?case
  proof (cases err1)
    case None
    with Cons.prems t obtain objs2 where "feed ht mt s1 chunks = Some (s', objs2, err)"
      by (auto split: option.splits)
    from Cons.IH [OF this] f1 show ?thesis by simp
  next
    case (Some e)
    with Cons.prems t have "s' = s1" by simp
    with f1 show ?thesis by simp
  qed
qed

lemma feed_expecting:
  "feed ht mt s chunks = Some (s', objs, err) \<Longrightarrow> d_expectHandshake s \<Longrightarrow>
   d_expectHandshake s' \<and> (\<forall>obj \<in> set objs. handshake obj \<noteq> None)"
proof (induction chunks arbitrary: s s' objs err)
  case Nil
  then show ?case by simp
next
  case (Cons chunk chunks)
  from Cons.prems obtain s1 objs1 err1 where
    t: "NettyDecoder_transform ht mt s chunk = Some (s1, objs1, err1)"
    by (auto split: option.splits)
  from t Cons.prems(2) have f1: "d_expectHandshake s1 \<and> (\<forall>obj \<in> set objs1. handshake obj \<noteq> None)"
    unfolding NettyDecoder_transform_def by (rule transform_loop_expecting)
  show ?case
  proof (cases err1)
    case None
    with Cons.prems t obtain objs2 where
      f: "feed ht mt s1 chunks = Some (s', objs2, err)" and o: "objs = objs1 @ objs2"
      by (auto split: option.splits)
    from Cons.IH [OF f] f1 o show ?thesis by auto
  next
    case (Some e)
    with Cons.prems t have "s' = s1" "objs = objs1" by simp_all
    with f1 show ?thesis by simp
  qed
qed

section \<open>Resuming the decoder on a well-formed stream\<close>

lemma length_frame_bytes [simp]: "length (frame_bytes f) = 4 + length f"
  by (simp add: frame_bytes_def)

lemma readFrames_short_frame:
  assumes "length f < 2 ^ 31" "Q @ c = frame_bytes f @ R" "length Q < length (frame_bytes f)"
  shows "readFrames fc bufs Q = Some (fc, bufs, Q)"
proof (cases "length Q < 4")
  case True
  then show ?thesis by (simp add: readFrames_stop)
next
  case False
  from assms(2) have "take (length Q) (Q @ c) = take (length Q) (frame_bytes f @ R)" by simp
  with assms(3) have q: "Q = take (length Q) (frame_bytes f)" by simp
  define n where "n = length Q - 4"
  from False have n: "length Q = 4 + n" by (simp add: n_def)
  from q n have "Q = int32_bytes (int (length f)) @ take n f"
    by (simp add: frame_bytes_def)
  then have "readInt32BE Q 0 = int (length f)"
    using assms(1) readInt32BE_int32_bytes [of "int (length f)" "take n f"] by simp
  with assms(3) show ?thesis by (intro readFrames_stop) simp
qed

lemma readFrames_prefix:
  assumes "\<forall>f \<in> set fs. length f < 2 ^ 31" "Q @ c = concat (map frame_bytes fs) @ rest"
  shows "(\<exists>Q2. Q = concat (map frame_bytes fs) @ Q2 \<and> Q2 @ c = rest
            \<and> readFrames (int (length fs)) bufs Q = Some (0, bufs @ fs, Q2))
       \<or> (\<exists>fs1 f fs2. fs = fs1 @ f # fs2
            \<and> (\<exists>Q'. readFrames (int (length fs)) bufs Q = Some (int (length (f # fs2)), bufs @ fs1, Q')
                 \<and> Q' @ c = concat (map frame_bytes (f # fs2)) @ rest
                 \<and> length Q' < length (frame_bytes f)))"
  using assms
proof (induction fs arbitrary: bufs Q)
  case Nil
  then show ?case by (simp add: readFrames_stop)
next
  case (Cons f fs)
  let ?R = "concat (map frame_bytes fs) @ rest"
  from Cons.prems have lf: "length f < 2 ^ 31" and lfs: "\<forall>f \<in> set fs. length f < 2 ^ 31"
    by simp_all
  from Cons.prems(2) have X: "Q @ c = frame_bytes f @ ?R" by simp
  show ?case
  proof (cases "length Q < length (frame_bytes f)")
    case True
    have "readFrames (int (length (f # fs))) bufs Q = Some (int (length (f # fs)), bufs, Q)"
      using lf X True by (rule readFrames_short_frame)
    with X True show ?thesis
      by (intro disjI2 exI [of _ "[]"] exI [of _ f] exI [of _ fs]) simp
  next
    case False
    define u where "u = drop (length (frame_bytes f)) Q"
    from X have "take (length (frame_bytes f)) (Q @ c) = frame_bytes f" by simp
    with False have "take (length (frame_bytes f)) Q = frame_bytes f" by simp
    then have u1: "Q = frame_bytes f @ u"
      unfolding u_def by (metis append_take_drop_id)
    with X have u2: "u @ c = ?R" by simp
    note u = u1 u2
    have step: "readFrames (int (length (f # fs))) bufs Q = readFrames (int (length fs)) (bufs @ [f]) u"
      using readFrames_frame [of "int (length (f # fs))" f bufs u] lf
      by (simp add: u frame_bytes_def)
    from Cons.IH [OF lfs u(2), of "bufs @ [f]"] show ?thesis
    proof (elim disjE exE conjE)
      fix Q2
      assume "u = concat (map frame_bytes fs) @ Q2" "Q2 @ c = rest"
        "readFrames (int (length fs)) (bufs @ [f]) u = Some (0, (bufs @ [f]) @ fs, Q2)"
      with step u show ?thesis by (intro disjI1 exI [of _ Q2]) simp
    next
      fix fs1 g fs2 Q'
      assume "fs = fs1 @ g # fs2"
        "readFrames (int (length fs)) (bufs @ [f]) u = Some (int (length (g # fs2)), (bufs @ [f]) @ fs1, Q')"
        "Q' @ c = concat (map frame_bytes (g # fs2)) @ rest" "length Q' < length (frame_bytes g)"
      with step show ?thesis
        by (intro disjI2 exI [of _ "f # fs1"] exI [of _ g] exI [of _ fs2] exI [of _ Q']) simp
    qed
  qed
qed

lemma encoded_frames:
  assumes "wellformed ht mt obj"
  obtains h hb mb where
    "handshake obj = Some h"
    "decode ht (hb @ mb @ body (packet obj)) = Inr (Decoded h (length hb))"
    "decode mt (mb @ body (packet obj)) = Inr (Decoded (headers (packet obj)) (length mb))"
    "length hb < 2 ^ 31" "length (mb @ body (packet obj)) < 2 ^ 31" "int32 (obj_id obj)"
    "encoded ht mt obj = (int32_bytes (obj_id obj) @ int32_bytes 2)
        @ concat (map frame_bytes [hb, mb @ body (packet obj)])"
    "frames ht mt obj = [hb, mb @ body (packet obj)]"
proof -
  from assms obtain h hb mb where
    h: "handshake obj = Some h" and hb: "toBuffer ht h = Inr hb"
    and mb: "toBuffer mt (headers (packet obj)) = Inr mb"
    and dh: "decode ht (hb @ mb @ body (packet obj)) = Inr (Decoded h (length hb))"
    and dm: "decode mt (mb @ body (packet obj)) = Inr (Decoded (headers (packet obj)) (length mb))"
    and l1: "length hb < 2 ^ 31" and l2: "length (mb @ body (packet obj)) < 2 ^ 31"
    and i: "int32 (obj_id obj)"
    by (rule wellformedE)
  have "encoded ht mt obj = (int32_bytes (obj_id obj) @ int32_bytes 2)
        @ concat (map frame_bytes [hb, mb @ body (packet obj)])"
    unfolding encoded_def pushed_def encoder_chunks [OF h hb mb l1 l2 i]
    by (simp add: frame_bytes_def)
  moreover have "frames ht mt obj = [hb, mb @ body (packet obj)]"
    by (simp add: frames_def NettyEncoder_encode_def toPayload_def h hb mb)
  ultimately show ?thesis using h dh dm l1 l2 i by (rule that [rotated 6])
qed

lemma frames_facts:
  assumes "wellformed ht mt obj" "bufs @ fs = frames ht mt obj"
  shows "\<forall>f \<in> set fs. length f < 2 ^ 31"
    and "\<forall>s'. d_expectHandshake s' \<longrightarrow>
           NettyDecoder_decode ht mt s' (obj_id obj) (concat (bufs @ fs)) = Inr (s', obj)"
    and "encoded ht mt obj
         = (int32_bytes (obj_id obj) @ int32_bytes (int (length fs) + int (length bufs)))
             @ concat (map frame_bytes bufs) @ concat (map frame_bytes fs)"
proof -
  from assms(1) obtain h hb mb where
    h: "handshake obj = Some h"
    and dh: "decode ht (hb @ mb @ body (packet obj)) = Inr (Decoded h (length hb))"
    and dm: "decode mt (mb @ body (packet obj)) = Inr (Decoded (headers (packet obj)) (length mb))"
    and l1: "length hb < 2 ^ 31" and l2: "length (mb @ body (packet obj)) < 2 ^ 31"
    and enc: "encoded ht mt obj = (int32_bytes (obj_id obj) @ int32_bytes 2)
                @ concat (map frame_bytes [hb, mb @ body (packet obj)])"
    and fr: "frames ht mt obj = [hb, mb @ body (packet obj)]"
    by (rule encoded_frames)
  from assms(2) fr have e: "bufs @ fs = [hb, mb @ body (packet obj)]" by simp
  then have "set fs \<subseteq> {hb, mb @ body (packet obj)}"
    by (metis set_append Un_upper2 list.simps(15) empty_set)
  with l1 l2 show "\<forall>f \<in> set fs. length f < 2 ^ 31" by auto
  show "\<forall>s'. d_expectHandshake s' \<longrightarrow>
           NettyDecoder_decode ht mt s' (obj_id obj) (concat (bufs @ fs)) = Inr (s', obj)"
    using decode_group [OF h dh dm] by (simp only: e) simp
  have "length fs + length bufs = 2"
    using arg_cong [OF e, of length] by simp
  then have n: "int (length fs) + int (length bufs) = 2" by linarith
  have "concat (map frame_bytes bufs) @ concat (map frame_bytes fs)
        = concat (map frame_bytes (bufs @ fs))"
    by simp
  then show "encoded ht mt obj
         = (int32_bytes (obj_id obj) @ int32_bytes (int (length fs) + int (length bufs)))
             @ concat (map frame_bytes bufs) @ concat (map frame_bytes fs)"
    unfolding n e enc by simp
qed



lemma transform_loop_header_step:
  assumes "d_id s = None" "8 \<le> length Q"
  shows "transform_loop ht mt s Q
         = transform_loop ht mt
             (s\<lparr>d_id := Some (readInt32BE Q 0), d_frameCount := readInt32BE Q 4\<rparr>) (slice_from Q 8)"
  apply (subst transform_loop.simps)
  apply (subst (2) transform_loop.simps)
  using assms apply simp
  done

text \<open>Frames of a group in progress, followed by complete groups and stray bytes.\<close>

lemma transform_loop_mid:
  assumes hdr: "\<And>s Q R. d_expectHandshake s \<Longrightarrow> d_id s = None \<Longrightarrow> d_bufs s = [] \<Longrightarrow>
            d_frameCount s = 0 \<Longrightarrow> Q @ R = concat (map (encoded ht mt) objs') @ tail \<Longrightarrow>
            \<exists>s' o1 o2. transform_loop ht mt s Q = Some (s', o1, None) \<and> objs' = o1 @ o2
                       \<and> awaits ht mt s' R o2 tail"
    and s: "d_expectHandshake s" "d_id s = Some i" "d_frameCount s = int (length fs)" "fs \<noteq> []"
    and wf: "list_all (wellformed ht mt) objs'" "length tail < 8"
    and obj: "wellformed ht mt obj" "i = obj_id obj" "d_bufs s @ fs = frames ht mt obj"
    and X: "Q @ R = concat (map frame_bytes fs) @ concat (map (encoded ht mt) objs') @ tail"
  shows "\<exists>s' o1 o2. transform_loop ht mt s Q = Some (s', o1, None) \<and> obj # objs' = o1 @ o2
                    \<and> awaits ht mt s' R o2 tail"
  using readFrames_prefix [OF frames_facts(1) [OF obj(1,3)] X, of "d_bufs s"]
proof (elim disjE exE conjE)
  fix Q2
  assume Q2: "Q2 @ R = concat (map (encoded ht mt) objs') @ tail"
    and rf: "readFrames (int (length fs)) (d_bufs s) Q = Some (0, d_bufs s @ fs, Q2)"
  let ?m = "s\<lparr>d_frameCount := 0, d_bufs := d_bufs s @ fs\<rparr>"
  have d: "NettyDecoder_decode ht mt ?m i (concat (d_bufs s @ fs)) = Inr (?m, obj)"
    using frames_facts(2) [OF obj(1,3)] s(1) obj(2) by simp
  have rf': "readFrames (d_frameCount s) (d_bufs s) Q = Some (0, d_bufs s @ fs, Q2)"
    using rf s(3) by simp
  let ?n = "s\<lparr>d_frameCount := 0, d_bufs := [], d_id := None\<rparr>"
  from hdr [of ?n Q2 R] s(1) Q2 obtain s' o1 o2 where
    r: "transform_loop ht mt ?n Q2 = Some (s', o1, None)"
      "objs' = o1 @ o2" "awaits ht mt s' R o2 tail"
    by auto
  have "transform_loop ht mt s Q = Some (s', obj # o1, None)"
    by (subst transform_loop_frames_done [OF s(2) rf' d]) (simp add: r(1))
  with r show ?thesis by (intro exI [of _ s'] exI [of _ "obj # o1"] exI [of _ o2]) simp
next
  fix fs1 f fs2 Q'
  assume split: "fs = fs1 @ f # fs2"
    and rf: "readFrames (int (length fs)) (d_bufs s) Q
             = Some (int (length (f # fs2)), d_bufs s @ fs1, Q')"
    and Q': "Q' @ R = concat (map frame_bytes (f # fs2)) @ concat (map (encoded ht mt) objs') @ tail"
    and short: "length Q' < length (frame_bytes f)"
  let ?s' = "s\<lparr>d_frameCount := int (length (f # fs2)), d_bufs := d_bufs s @ fs1, d_buf := Q'\<rparr>"
  have rf': "readFrames (d_frameCount s) (d_bufs s) Q
             = Some (int (length (f # fs2)), d_bufs s @ fs1, Q')"
    using rf s(3) by simp
  have t: "transform_loop ht mt s Q = Some (?s', [], None)"
    by (rule transform_loop_frames_wait [OF s(2) rf']) simp
  have "awaits ht mt ?s' R (obj # objs') tail"
    unfolding awaits_def
    using s(1,2) wf obj Q' short split
    by (auto intro!: exI [of _ "f # fs2"])
  with t show ?thesis by (intro exI [of _ ?s'] exI [of _ "[]"] exI [of _ "obj # objs'"]) simp
qed

lemma transform_loop_header:
  assumes "list_all (wellformed ht mt) objs" "length tail < 8"
    and "d_expectHandshake s" "d_id s = None" "d_bufs s = []" "d_frameCount s = 0"
    and "Q @ R = concat (map (encoded ht mt) objs) @ tail"
  shows "\<exists>s' o1 o2. transform_loop ht mt s Q = Some (s', o1, None) \<and> objs = o1 @ o2
                    \<and> awaits ht mt s' R o2 tail"
  using assms
proof (induction objs arbitrary: s Q R)
  case Nil
  then have "length Q < 8"
    by (metis append_Nil concat.simps(1) length_append list.simps(8) add_lessD1)
  with Nil have "transform_loop ht mt s Q = Some (s\<lparr>d_buf := Q\<rparr>, [], None)"
    "awaits ht mt (s\<lparr>d_buf := Q\<rparr>) R [] tail"
    by (simp_all add: transform_loop_wait awaits_def)
  then show ?case by blast
next
  case (Cons obj objs)
  from Cons.prems have wf: "wellformed ht mt obj" and wfs: "list_all (wellformed ht mt) objs"
    by simp_all
  show ?case
  proof (cases "length Q < 8")
    case True
    with Cons.prems have "transform_loop ht mt s Q = Some (s\<lparr>d_buf := Q\<rparr>, [], None)"
      "awaits ht mt (s\<lparr>d_buf := Q\<rparr>) R (obj # objs) tail"
      by (simp_all add: transform_loop_wait awaits_def)
    then show ?thesis by (intro exI [of _ "s\<lparr>d_buf := Q\<rparr>"] exI [of _ "[]"] exI [of _ "obj # objs"]) simp
  next
    case False
    from wf obtain h hb mb where
      h: "handshake obj = Some h"
      and dh: "decode ht (hb @ mb @ body (packet obj)) = Inr (Decoded h (length hb))"
      and dm: "decode mt (mb @ body (packet obj)) = Inr (Decoded (headers (packet obj)) (length mb))"
      and l1: "length hb < 2 ^ 31" and l2: "length (mb @ body (packet obj)) < 2 ^ 31"
      and i: "int32 (obj_id obj)"
      and enc: "encoded ht mt obj = (int32_bytes (obj_id obj) @ int32_bytes 2)
                  @ concat (map frame_bytes [hb, mb @ body (packet obj)])"
      and fr: "frames ht mt obj = [hb, mb @ body (packet obj)]"
      by (rule encoded_frames)
    let ?head = "int32_bytes (obj_id obj) @ int32_bytes 2"
    let ?fs = "[hb, mb @ body (packet obj)]"
    let ?rest = "concat (map frame_bytes ?fs) @ concat (map (encoded ht mt) objs) @ tail"
    from Cons.prems(7) have X: "Q @ R = ?head @ ?rest" by (simp add: enc)
    define Q1 where "Q1 = drop 8 Q"
    from X have "take 8 (Q @ R) = ?head" by simp
    with False have "take 8 Q = ?head" by simp
    then have Q: "Q = ?head @ Q1" unfolding Q1_def by (metis append_take_drop_id)
    with X have X1: "Q1 @ R = ?rest" by simp
    have r0: "readInt32BE Q 0 = obj_id obj"
      using i by (simp add: Q readInt32BE_int32_bytes int32_def)
    have r4: "readInt32BE Q 4 = 2"
      using readInt32BE_int32_bytes [of 2 Q1] by (simp add: Q readInt32BE_at4)
    have sl: "slice_from Q 8 = Q1"
      unfolding Q by (rule slice_from_8) simp
    let ?s1 = "s\<lparr>d_id := Some (obj_id obj), d_frameCount := 2\<rparr>"
    have step: "transform_loop ht mt s Q = transform_loop ht mt ?s1 Q1"
      using transform_loop_header_step [OF Cons.prems(4), of Q ht mt] False
      by (simp add: r0 r4 sl)
    have "\<exists>s' o1 o2. transform_loop ht mt ?s1 Q1 = Some (s', o1, None) \<and> obj # objs = o1 @ o2
                    \<and> awaits ht mt s' R o2 tail"
    proof (rule transform_loop_mid [where fs = ?fs and i = "obj_id obj"])
      fix sa :: dstate and Qa Ra
      assume "d_expectHandshake sa" "d_id sa = None" "d_bufs sa = []" "d_frameCount sa = 0"
        "Qa @ Ra = concat (map (encoded ht mt) objs) @ tail"
      then show "\<exists>s' o1 o2. transform_loop ht mt sa Qa = Some (s', o1, None) \<and> objs = o1 @ o2
                    \<and> awaits ht mt s' Ra o2 tail"
        using Cons.IH [OF wfs Cons.prems(2)] by blast
    qed (use Cons.prems wf wfs fr X1 in simp_all)
    with step show ?thesis by simp
  qed
qed

lemma transform_awaits:
  assumes "awaits ht mt s (c @ R) objs tail"
  shows "\<exists>s' o1 o2. NettyDecoder_transform ht mt s c = Some (s', o1, None) \<and> objs = o1 @ o2
                    \<and> awaits ht mt s' R o2 tail"
proof (cases "d_id s")
  case None
  with assms show ?thesis
    unfolding NettyDecoder_transform_def
    by (intro transform_loop_header) (simp_all add: awaits_def)
next
  case (Some i)
  with assms obtain fs obj objs' where
    a: "d_expectHandshake s" "length tail < 8" "fs \<noteq> []" "d_frameCount s = int (length fs)"
      "objs = obj # objs'" "wellformed ht mt obj" "list_all (wellformed ht mt) objs'"
      "i = obj_id obj" "d_bufs s @ fs = frames ht mt obj"
      "(d_buf s @ c) @ R = concat (map frame_bytes fs) @ concat (map (encoded ht mt) objs') @ tail"
    by (auto simp: awaits_def)
  show ?thesis
    unfolding NettyDecoder_transform_def a(5)
    by (rule transform_loop_mid [OF transform_loop_header [OF a(7,2)] a(1) Some a(4,3,7,2,6,8,9,10)])
qed

lemma length_encoded:
  assumes "wellformed ht mt obj"
  shows "8 \<le> length (encoded ht mt obj)"
proof -
  from assms obtain hb p where
    "encoded ht mt obj = (int32_bytes (obj_id obj) @ int32_bytes 2) @ concat (map frame_bytes [hb, p])"
    by (rule encoded_frames) blast
  then show ?thesis by simp
qed

lemma awaits_end:
  assumes "awaits ht mt s [] objs tail"
  shows "objs = [] \<and> s = NettyDecoder_new\<lparr>d_buf := tail\<rparr>"
proof (cases "d_id s")
  case None
  from assms have "d_expectHandshake s \<and> d_bufs s = [] \<and> d_frameCount s = 0
    \<and> length (d_buf s) < 8 \<and> list_all (wellformed ht mt) objs
    \<and> d_buf s = concat (map (encoded ht mt) objs) @ tail"
    unfolding awaits_def None option.case append_Nil2 by blast
  then have a: "d_expectHandshake s" "d_bufs s = []" "d_frameCount s = 0"
    "length (d_buf s) < 8" "list_all (wellformed ht mt) objs"
    "d_buf s = concat (map (encoded ht mt) objs) @ tail"
    by blast+
  have o: "objs = []"
  proof (cases objs)
    case (Cons obj rest)
    with a(5) have "8 \<le> length (encoded ht mt obj)" by (simp add: length_encoded)
    with a(4,6) Cons show ?thesis by simp
  qed simp
  with a None have "s = NettyDecoder_new\<lparr>d_buf := tail\<rparr>"
    by (cases s) (simp add: NettyDecoder_new_def)
  with o show ?thesis by simp
next
  case (Some i)
  with assms obtain fs :: "buffer list" and rest where
    "fs \<noteq> []" "d_buf s = concat (map frame_bytes fs) @ rest"
    "length (d_buf s) < length (frame_bytes (hd fs))"
    by (auto simp: awaits_def)
  then show ?thesis by (cases fs) simp_all
qed

lemma feed_awaits:
  assumes "awaits ht mt s (concat cs) objs tail"
  shows "feed ht mt s cs = Some (NettyDecoder_new\<lparr>d_buf := tail\<rparr>, objs, None)"
  using assms
proof (induction cs arbitrary: s objs)
  case Nil
  then show ?case using awaits_end [of ht mt s objs tail] by simp
next
  case (Cons c cs)
  then have "awaits ht mt s (c @ concat cs) objs tail" by simp
  from transform_awaits [OF this] obtain s' o1 o2 where
    t: "NettyDecoder_transform ht mt s c = Some (s', o1, None)" and o: "objs = o1 @ o2"
    and a: "awaits ht mt s' (concat cs) o2 tail"
    by blast
  from Cons.IH [OF a] show ?case by (simp add: t o)
qed

text \<open>
  However the bytes of complete frame groups and of fewer than eight stray bytes are cut
  into chunks, a new decoder pushes the objects of the groups and keeps the stray bytes.
\<close>

lemma feed_any_chunking:
  assumes "list_all (wellformed ht mt) objs" "length tail < 8"
    and "concat cs = concat (map (encoded ht mt) objs) @ tail"
  shows "feed ht mt NettyDecoder_new cs = Some (NettyDecoder_new\<lparr>d_buf := tail\<rparr>, objs, None)"
proof (rule feed_awaits)
  show "awaits ht mt NettyDecoder_new (concat cs) objs tail"
    using assms by (simp add: awaits_def NettyDecoder_new_def)
qed






section \<open>The framed codec on concrete and on well-formed input\<close>

lemma wellformed_example: "wellformed lp_type hm_type example_obj"
  by (simp add: wellformed_def example_obj_def lp_type_def hm_type_def lp_toBuffer_def lp_decode_def
      hm_toBuffer_def hm_decode_def int32_def char_of_def bit_numeral_simps bit_Suc_0_iff)

lemma pushed_example:
  "pushed lp_type hm_type example_obj =
     [[0, 0, 0, 7, 0, 0, 0, 2], [0, 0, 0, 3], [2, 1, 2], [0, 0, 0, 7], [1, 1, 107, 1, 9, 5, 6]]"
  by (simp add: pushed_def NettyEncoder_transform_def NettyEncoder_encode_def toPayload_def
      example_obj_def lp_type_def hm_type_def lp_toBuffer_def hm_toBuffer_def writeInt32BE_def
      intBuffer_def int32_bytes_def)

lemma pushed_bare:
  "NettyEncoder_transform lp_type hm_type bare_obj
     = ([[0, 0, 0, 1, 0, 0, 0, 1], [0, 0, 0, 1], [0]], None)"
  by (simp add: NettyEncoder_transform_def NettyEncoder_encode_def toPayload_def bare_obj_def
      lp_type_def hm_type_def hm_toBuffer_def writeInt32BE_def intBuffer_def int32_bytes_def)

lemma decode_with_bare:
  "decode_with lp_type hm_type [0] True = Inl (Error ''truncated request headers'')"
  "decode_with lp_type hm_type [0] False = Inr (None, \<lparr>body = [], headers = []\<rparr>)"
  by (simp_all add: decode_with_def forPayload_def lp_type_def hm_type_def
      lp_decode_def hm_decode_def slice_from_def clamp_index_def)

lemma decode_bare:
  "NettyDecoder_decode lp_type hm_type s 1 [0] =
     (if d_expectHandshake s then Inl (Error ''truncated request headers'')
      else Inr (s, bare_obj))"
  by (simp add: NettyDecoder_decode_def decode_with_bare bare_obj_def)

lemma readFrames_one_byte: "readFrames 1 [] [0, 0, 0, 1, 0] = Some (0, [[0]], [])"
  by (simp add: readFrames.simps readInt32BE_def slice_def slice_from_def clamp_index_def)

lemma transform_bare:
  "NettyDecoder_transform lp_type hm_type (NettyDecoder_new\<lparr>d_expectHandshake := e\<rparr>)
      [0, 0, 0, 1, 0, 0, 0, 1, 0, 0, 0, 1, 0]
   = (if e then Some (NettyDecoder_new\<lparr>d_id := Some 1, d_bufs := [[0]]\<rparr>, [],
                      Some (Error ''truncated request headers''))
      else Some (NettyDecoder_new\<lparr>d_expectHandshake := False\<rparr>, [bare_obj], None))"
  unfolding NettyDecoder_transform_def
  apply (subst transform_loop.simps)
  apply (simp add: NettyDecoder_new_def readInt32BE_def slice_from_def clamp_index_def
      readFrames_one_byte decode_bare transform_loop_wait)
  done

lemma feed_bare_state:
  "feed lp_type hm_type NettyDecoder_new [[0, 0, 0, 1, 0, 0, 0, 1], [0, 0, 0, 1], [0]]
   = Some (NettyDecoder_new\<lparr>d_id := Some 1, d_buf := [0, 0, 0, 1], d_bufs := [[0]]\<rparr>, [],
           Some (Error ''truncated request headers''))"
proof -
  let ?s1 = "NettyDecoder_new\<lparr>d_id := Some 1, d_frameCount := 1\<rparr>"
  have 1: "NettyDecoder_transform lp_type hm_type NettyDecoder_new [0, 0, 0, 1, 0, 0, 0, 1]
           = Some (?s1, [], None)"
    unfolding NettyDecoder_transform_def
    by (subst transform_loop.simps)
      (simp add: NettyDecoder_new_def readInt32BE_def slice_from_def clamp_index_def readFrames_stop)
  let ?s2 = "?s1\<lparr>d_buf := [0, 0, 0, 1]\<rparr>"
  have 2: "NettyDecoder_transform lp_type hm_type ?s1 [0, 0, 0, 1] = Some (?s2, [], None)"
    unfolding NettyDecoder_transform_def
    by (subst transform_loop.simps)
      (simp add: NettyDecoder_new_def readInt32BE_def readFrames_stop)
  have 3: "NettyDecoder_transform lp_type hm_type ?s2 [0]
           = Some (NettyDecoder_new\<lparr>d_id := Some 1, d_buf := [0, 0, 0, 1], d_bufs := [[0]]\<rparr>, [],
                   Some (Error ''truncated request headers''))"
    unfolding NettyDecoder_transform_def
    by (subst transform_loop.simps)
      (simp add: NettyDecoder_new_def readFrames_one_byte decode_bare)
  show ?thesis by (simp add: 1 2 3 del: dstate.simps)
qed

lemma pushed_ambiguous:
  "NettyEncoder_transform lp_type hm_type ambiguous_obj
     = ([[0, 0, 0, 1, 0, 0, 0, 1], [0, 0, 0, 2], [0, 0]], None)"
  by (simp add: NettyEncoder_transform_def NettyEncoder_encode_def toPayload_def ambiguous_obj_def
      lp_type_def hm_type_def hm_toBuffer_def writeInt32BE_def intBuffer_def int32_bytes_def)

lemma feed_ambiguous_chunks:
  "feed lp_type hm_type NettyDecoder_new [[0, 0, 0, 1, 0, 0, 0, 1], [0, 0, 0, 2], [0, 0]]
   = Some (NettyDecoder_new,
           [\<lparr>handshake = Some [], obj_id = 1, packet = \<lparr>body = [], headers = []\<rparr>\<rparr>], None)"
proof -
  let ?s1 = "NettyDecoder_new\<lparr>d_id := Some 1, d_frameCount := 1\<rparr>"
  have 1: "NettyDecoder_transform lp_type hm_type NettyDecoder_new [0, 0, 0, 1, 0, 0, 0, 1]
           = Some (?s1, [], None)"
    unfolding NettyDecoder_transform_def
    by (subst transform_loop.simps)
      (simp add: NettyDecoder_new_def readInt32BE_def slice_from_def clamp_index_def readFrames_stop)
  let ?s2 = "?s1\<lparr>d_buf := [0, 0, 0, 2]\<rparr>"
  have 2: "NettyDecoder_transform lp_type hm_type ?s1 [0, 0, 0, 2] = Some (?s2, [], None)"
    unfolding NettyDecoder_transform_def
    by (subst transform_loop.simps)
      (simp add: NettyDecoder_new_def readInt32BE_def readFrames_stop)
  have rf: "readFrames 1 [] [0, 0, 0, 2, 0, 0] = Some (0, [[0, 0]], [])"
    by (simp add: readFrames.simps readInt32BE_def slice_def slice_from_def clamp_index_def)
  have d: "NettyDecoder_decode lp_type hm_type s 1 [0, 0]
           = Inr (s, \<lparr>handshake = Some [], obj_id = 1, packet = \<lparr>body = [], headers = []\<rparr>\<rparr>)"
    if "d_expectHandshake s" for s
    using that
    by (simp add: NettyDecoder_decode_def decode_with_def forPayload_def lp_type_def hm_type_def
        lp_decode_def hm_decode_def slice_from_def clamp_index_def)
  have 3: "NettyDecoder_transform lp_type hm_type ?s2 [0, 0]
           = Some (NettyDecoder_new,
                   [\<lparr>handshake = Some [], obj_id = 1, packet = \<lparr>body = [], headers = []\<rparr>\<rparr>], None)"
    unfolding NettyDecoder_transform_def
    by (subst transform_loop.simps)
      (simp add: NettyDecoder_new_def rf d transform_loop_wait)
  show ?thesis by (simp add: 1 2 3 del: dstate.simps)
qed

text \<open>
  Claim C1, restricted to objects that carry a handshake: the bytes written by the encoder
  for a well-formed object, cut into chunks in any way (as the encoder pushes them, as one
  buffer, or otherwise) and written to a new decoder of the same handshake type, make it
  push exactly that object, raise nothing and keep nothing.
\<close>

theorem roundtrip_with_handshake:
  assumes "wellformed ht mt obj" and "concat cs = concat (pushed ht mt obj)"
  shows "snd (NettyEncoder_transform ht mt obj) = None
       \<and> feed ht mt NettyDecoder_new cs = Some (NettyDecoder_new, [obj], None)
       \<and> NettyDecoder_flush NettyDecoder_new = None"
proof -
  from assms(1) obtain h hb mb where
    "handshake obj = Some h" "toBuffer ht h = Inr hb"
    "toBuffer mt (headers (packet obj)) = Inr mb"
    "length hb < 2 ^ 31" "length (mb @ body (packet obj)) < 2 ^ 31" "int32 (obj_id obj)"
    by (rule wellformedE)
  then have "snd (NettyEncoder_transform ht mt obj) = None"
    by (simp add: encoder_chunks)
  moreover have "NettyDecoder_flush NettyDecoder_new = None"
    by (simp add: NettyDecoder_flush_def NettyDecoder_new_def)
  moreover have "feed ht mt NettyDecoder_new cs = Some (NettyDecoder_new, [obj], None)"
    using feed_any_chunking [of ht mt "[obj]" "[]" cs] assms
    by (simp add: encoded_def NettyDecoder_new_def)
  ultimately show ?thesis by simp
qed

theorem roundtrip_with_handshake_witness:
  "wellformed lp_type hm_type example_obj
   \<and> pushed lp_type hm_type example_obj
       = [[0, 0, 0, 7, 0, 0, 0, 2], [0, 0, 0, 3], [2, 1, 2], [0, 0, 0, 7], [1, 1, 107, 1, 9, 5, 6]]
   \<and> feed lp_type hm_type NettyDecoder_new
        [[0, 0, 0, 7, 0, 0, 0, 2], [0, 0, 0, 3], [2, 1, 2], [0, 0, 0, 7], [1, 1, 107, 1, 9, 5, 6]]
       = Some (NettyDecoder_new, [example_obj], None)
   \<and> feed lp_type hm_type NettyDecoder_new
        [[0, 0, 0, 7, 0, 0], [0, 2, 0, 0, 0, 3, 2, 1, 2, 0, 0, 0, 7, 1, 1, 107, 1], [9, 5, 6]]
       = Some (NettyDecoder_new, [example_obj], None)"
  using roundtrip_with_handshake [OF wellformed_example,
      of "[[0, 0, 0, 7, 0, 0, 0, 2], [0, 0, 0, 3], [2, 1, 2], [0, 0, 0, 7], [1, 1, 107, 1, 9, 5, 6]]"]
    roundtrip_with_handshake [OF wellformed_example,
      of "[[0, 0, 0, 7, 0, 0], [0, 2, 0, 0, 0, 3, 2, 1, 2, 0, 0, 0, 7, 1, 1, 107, 1], [9, 5, 6]]"]
    wellformed_example
  by (simp add: pushed_example)

text \<open>
  Claim C1 as stated fails for an object without a handshake. The encoder writes the
  payload of \<open>ambiguous_obj\<close> as one frame; the decoder reads a payload with a handshake
  first, and these bytes are also an empty handshake followed by an empty packet: it
  pushes, without any error, an object that differs from the one encoded.
\<close>

theorem roundtrip_without_handshake_counterexample:
  "handshake ambiguous_obj = None
   \<and> NettyEncoder_transform lp_type hm_type ambiguous_obj
     = ([[0, 0, 0, 1, 0, 0, 0, 1], [0, 0, 0, 2], [0, 0]], None)
   \<and> feed lp_type hm_type NettyDecoder_new [[0, 0, 0, 1, 0, 0, 0, 1], [0, 0, 0, 2], [0, 0]]
     = Some (NettyDecoder_new,
             [\<lparr>handshake = Some [], obj_id = 1, packet = \<lparr>body = [], headers = []\<rparr>\<rparr>], None)
   \<and> \<lparr>handshake = Some [], obj_id = 1, packet = \<lparr>body = [], headers = []\<rparr>\<rparr> \<noteq> ambiguous_obj"
  using pushed_ambiguous feed_ambiguous_chunks by (simp add: ambiguous_obj_def)

text \<open>
  Claim C2: the payload \<open>[0]\<close> (no headers, empty body) decodes without a handshake and
  not with one. A decoder that expects a handshake makes its second attempt in the same
  mode, so the frame group is answered by the error of the first attempt.
\<close>

theorem retry_repeats_expecting_mode:
  "d_expectHandshake NettyDecoder_new
   \<and> decode_with lp_type hm_type [0] True = Inl (Error ''truncated request headers'')
   \<and> decode_with lp_type hm_type [0] False = Inr (None, \<lparr>body = [], headers = []\<rparr>)
   \<and> NettyDecoder_decode lp_type hm_type NettyDecoder_new 1 [0]
       = Inl (Error ''truncated request headers'')
   \<and> NettyDecoder_transform lp_type hm_type NettyDecoder_new [0, 0, 0, 1, 0, 0, 0, 1, 0, 0, 0, 1, 0]
       = Some (NettyDecoder_new\<lparr>d_id := Some 1, d_bufs := [[0]]\<rparr>, [],
               Some (Error ''truncated request headers''))"
  using transform_bare [of True]
  by (simp add: decode_with_bare decode_bare NettyDecoder_new_def)

text \<open>In general the second attempt never succeeds where the first has failed.\<close>

lemma decode_retry_fails:
  "decode_with ht mt buf (d_expectHandshake s) = Inl err \<Longrightarrow>
   NettyDecoder_decode ht mt s i buf = Inl err"
  by (simp add: NettyDecoder_decode_def)

text \<open>
  A decoder that starts from \<open>NettyDecoder_new\<close> keeps expecting handshakes, and every
  object it pushes carries one.
\<close>

lemma new_decoder_keeps_expecting:
  assumes "feed ht mt NettyDecoder_new cs = Some (s', objs, err)"
  shows "d_expectHandshake s' \<and> (\<forall>obj \<in> set objs. handshake obj \<noteq> None)"
  using feed_expecting [OF assms] by (simp add: NettyDecoder_new_def)

text \<open>
  Claim C8: the flag starts true, and it is not cleared by a frame group whose payload
  decodes without a handshake. The encoder writes such a group for \<open>bare_obj\<close>, with the
  payload \<open>[0]\<close>; a new decoder that receives it, as the encoder pushes it, emits the
  error of the attempt with a handshake and still expects a handshake.
\<close>

theorem expectation_never_cleared:
  "d_expectHandshake NettyDecoder_new
   \<and> NettyEncoder_transform lp_type hm_type bare_obj
     = ([[0, 0, 0, 1, 0, 0, 0, 1], [0, 0, 0, 1], [0]], None)
   \<and> decode_with lp_type hm_type [0] False = Inr (None, \<lparr>body = [], headers = []\<rparr>)
   \<and> map_option (\<lambda>(s, objs, err). (d_expectHandshake s, objs, err))
        (feed lp_type hm_type NettyDecoder_new [[0, 0, 0, 1, 0, 0, 0, 1], [0, 0, 0, 1], [0]])
     = Some (True, [], Some (Error ''truncated request headers''))"
  unfolding feed_bare_state pushed_bare by (simp add: decode_with_bare NettyDecoder_new_def)






section \<open>The client bridge\<close>

lemma map_of_map_set [simp]: "map_of (map_set m k v) k = Some v"
  by (induction m k v rule: map_set.induct) auto

lemma map_of_map_delete [simp]: "map_of (map_delete m k) k = None"
  by (induction m) (auto simp: map_delete_def)

lemma resolve_onWritableError:
  "resolve [''readable'', ''writable''] ''onWritableError''
   = Inl (ReferenceError ''onWritableError is not defined'')"
  by (simp add: resolve_def module_scope_def)

lemma resolve_destroy:
  "resolve [''handshake'', ''id'', ''packet'', ''obj'', ''match'', ''clientSvc'', ''clientHash'',
            ''serverSvc'', ''serverHash'', ''err'', ''readable'', ''writable''] ''destroy''
   = Inl (ReferenceError ''destroy is not defined'')"
  by (simp add: resolve_def module_scope_def)

text \<open>Over one duplex stream the constructor succeeds; over two streams it never does.\<close>

lemma bridge_over_duplex: "NettyBridge_new (StreamArg r) OtherArg = Inr open_bridge"
  by (simp add: NettyBridge_new_def isStream_def open_bridge_def)

lemma bridge_over_distinct:
  "r \<noteq> w \<Longrightarrow> NettyBridge_new (StreamArg r) (StreamArg w)
                = Inl (ReferenceError ''onWritableError is not defined'')"
  by (simp add: NettyBridge_new_def isStream_def resolve_onWritableError)

text \<open>
  Claim C10: building the bridge over the distinct streams 0 and 1, directly or through
  \<open>nettyRouter\<close>, raises a reference error at the registration of the writable error
  listener, while \<open>release\<close> would remove the listener \<open>_onWritableError\<close>.
\<close>

theorem bridge_over_distinct_streams_raises:
  "NettyBridge_new (StreamArg 0) (StreamArg 1)
     = Inl (ReferenceError ''onWritableError is not defined'')
   \<and> nettyRouter_bridge (StreamArg 0) (StreamArg 1)
     = Inl (ReferenceError ''onWritableError is not defined'')
   \<and> (Writable, ''error'', ''_onWritableError'')
       \<notin> set (listeners (NettyBridge_release
                            (open_bridge\<lparr>listeners := [(Writable, ''error'', ''_onWritableError'')]\<rparr>)))"
  by (simp add: nettyRouter_bridge_def bridge_over_distinct isStream_def NettyBridge_release_def)

text \<open>A call on a closed bridge fails its continuation and is sent all the same.\<close>

lemma channel_on_closed:
  assumes "closed b" "pkt_service preq = Some svc"
  shows "NettyBridge_channel env b tr preq cb
         = Inr (b\<lparr>delivered := delivered b @ [(cb, Inl (Error ''bridge closed''))],
                  written := written b
                    @ [\<lparr>handshake =
                          Some \<lparr>clientHash = hash svc, clientProtocol = None,
                                serverHash = (if truthy (hashes b (hash svc))
                                              then the (hashes b (hash svc)) else hash svc),
                                meta = None\<rparr>,
                        obj_id = pkt_id preq,
                        packet = \<lparr>body = pkt_body preq, headers = pkt_headers preq\<rparr>\<rparr>]\<rparr>)"
  using assms
  by (simp add: NettyBridge_channel_def NettyBridge_track_def NettyBridge_send_def Let_def)

text \<open>
  Claim C7: on the closed bridge the call of \<open>example_preq\<close> fails its continuation and
  adds no entry, and its frame group is written to the encoder, with no \<open>meta\<close>.
\<close>

theorem call_on_closed_bridge_is_sent:
  "closed (NettyBridge_close open_bridge)
   \<and> NettyBridge_channel example_env (NettyBridge_close open_bridge) example_trace example_preq 0
     = Inr ((NettyBridge_close open_bridge)
             \<lparr>delivered := [(0, Inl (Error ''bridge closed''))],
              written := [\<lparr>handshake = Some \<lparr>clientHash = [1], clientProtocol = None,
                                                serverHash = [1], meta = None\<rparr>,
                            obj_id = 5, packet = \<lparr>body = [7], headers = []\<rparr>\<rparr>]\<rparr>)
   \<and> callbacks (NettyBridge_close open_bridge) = []"
  by (simp add: NettyBridge_channel_def NettyBridge_track_def NettyBridge_send_def
      NettyBridge_close_def open_bridge_def example_preq_def echo_service_def truthy_def)

text \<open>On an open bridge the same call is tracked and sent.\<close>

lemma call_on_open_bridge:
  "NettyBridge_channel example_env open_bridge example_trace example_preq 0 = Inr pending_bridge"
  by (simp add: NettyBridge_channel_def NettyBridge_track_def NettyBridge_send_def
      open_bridge_def pending_bridge_def example_preq_def echo_service_def truthy_def
      example_env_def example_trace_def Let_def)

text \<open>
  Claim C6: the response carries a server hash and a protocol that \<open>Service\<close> rejects. The
  listener leaves by a reference error: the bridge stays open, the pending continuation is
  not interrupted and no error is emitted, where \<open>destroy\<close> would do all three.
\<close>

theorem parse_failure_does_not_destroy:
  "parseService example_env (Some ''{'') = Inl (Error ''invalid protocol'')
   \<and> NettyBridge_data example_env pending_bridge (bad_protocol_response BOTH)
     = Inl (ReferenceError ''destroy is not defined'')
   \<and> \<not> closed pending_bridge \<and> delivered pending_bridge = [] \<and> emitted pending_bridge = []
   \<and> closed (NettyBridge_destroy pending_bridge (Some (Error ''invalid protocol'')))
   \<and> delivered (NettyBridge_destroy pending_bridge (Some (Error ''invalid protocol'')))
     = [(0, Inl (Error ''bridge destroyed''))]
   \<and> emitted (NettyBridge_destroy pending_bridge (Some (Error ''invalid protocol'')))
     = [Close, ErrorEvent (Error ''invalid protocol'')]"
  by (simp add: NettyBridge_data_def server_service_def pending_bridge_def open_bridge_def bad_protocol_response_def
      example_preq_def example_env_def resolve_destroy NettyBridge_destroy_def NettyBridge_close_def
      invoke_cb_def NettyBridge_untrack_def NettyBridge_release_def map_delete_def Let_def)






section \<open>The gateway\<close>

text \<open>
  Whatever \<open>router.services\<close> is, the answer to an unknown client without a protocol never
  carries a server protocol or a server hash.
\<close>

lemma respond_none_never_attaches:
  "respond_none env rt i = Responded r \<Longrightarrow>
   handshake r = Some \<lparr>match = NONE, serverProtocol = None, r_serverHash = None, r_meta = None\<rparr>"
  by (auto simp: respond_none_def Let_def split: if_splits option.splits)

text \<open>
  Claim C4: the client hash 9 is unknown and the handshake has no client protocol. With
  \<open>router.services\<close> an array of the one service, the response has match \<open>NONE\<close> and neither
  the protocol nor the hash of that service; with a set of the one service, the listener
  leaves by a type error and nothing is written.
\<close>

theorem none_response_lacks_server_protocol:
  "items (router_services array_router) = [echo_service]
   \<and> NettyGateway_data example_gateway_env array_router fresh_gateway (example_request [9])
     = (fresh_gateway,
        Responded \<lparr>handshake = Some \<lparr>match = NONE, serverProtocol = None, r_serverHash = None,
                                      r_meta = None\<rparr>,
                   obj_id = 3, packet = \<lparr>body = [1, 0, 3], headers = []\<rparr>\<rparr>)
   \<and> items (router_services set_router) = [echo_service]
   \<and> NettyGateway_data example_gateway_env set_router fresh_gateway (example_request [9])
     = (fresh_gateway, Threw (TypeError ''Cannot read properties of undefined''))"
  by (simp add: NettyGateway_data_def respond_none_def array_router_def set_router_def
      array_of_def set_of_def fresh_gateway_def example_request_def example_gateway_env_def
      meta_lookup_def truthy_def forSystemError_def Let_def)

text \<open>When the router has no server service for the client, the listener raises.\<close>

lemma match_server_unknown:
  "router_service rt csvc = None \<Longrightarrow>
   match_server rt csvc = Inl (TypeError ''Cannot read properties of undefined'')"
  by (simp add: match_server_def Let_def)

lemma match_server_known:
  "match_server rt csvc = Inr hres \<Longrightarrow> match hres = BOTH \<and> serverProtocol hres = None"
  by (auto simp: match_server_def Let_def split: option.splits)

text \<open>
  Claim C5: the gateway knows the client hash 1 and the router has no server service for
  it. The listener leaves by a type error: no response with match \<open>CLIENT\<close> is built and
  the request is not forwarded.
\<close>

theorem unknown_server_service_raises:
  "clientServices echo_gateway [1] = Some echo_service
   \<and> router_service array_router echo_service = None
   \<and> NettyGateway_data example_gateway_env array_router echo_gateway (example_request [1])
     = (echo_gateway\<lparr>clientSvc := Some echo_service\<rparr>,
        Threw (TypeError ''Cannot read properties of undefined''))"
  by (simp add: NettyGateway_data_def match_server_def array_router_def echo_gateway_def
      example_request_def example_gateway_env_def meta_lookup_def Let_def)

end
